theory Spec2Isabelle
  imports Complex_Main "HOL-Library.Multiset"
begin

section \<open>JavaScript numbers\<close>

text \<open>
  The fields of a candle are JavaScript numbers. The normalizer tests them with
  \<^verbatim>\<open>isNaN\<close>, compares them with \<^verbatim>\<open><\<close> and \<^verbatim>\<open>></\<close>, and subtracts two of them in the
  comparator of \<^verbatim>\<open>Array.prototype.sort\<close>. A number is therefore NaN, one of the two
  infinities, or a finite value. Finite values are reals: every finite double is one, the
  comparisons of doubles are those of the reals, and the difference of two distinct finite
  doubles is never zero and has the sign of the real difference (it may overflow to an
  infinity of that sign), which is all the sort reads of it. The two zeros are one value,
  as they are for every operator used here and for the membership test of a
  \<^verbatim>\<open>Set\<close>.
\<close>

datatype jsnum = NaN | NegInf | Fin real | PosInf

text \<open>\<^verbatim>\<open>a < b\<close>: false as soon as one side is NaN.\<close>

fun js_lt :: "jsnum \<Rightarrow> jsnum \<Rightarrow> bool" where
  "js_lt NaN b = False"
| "js_lt a NaN = False"
| "js_lt NegInf NegInf = False"
| "js_lt NegInf b = True"
| "js_lt (Fin x) NegInf = False"
| "js_lt (Fin x) (Fin y) = (x < y)"
| "js_lt (Fin x) PosInf = True"
| "js_lt PosInf b = False"

text \<open>\<^verbatim>\<open>a > b\<close> is \<^verbatim>\<open>b < a\<close>; \<^verbatim>\<open>a >= b\<close> is \<^verbatim>\<open>!(a < b)\<close> unless one side is NaN,
  when it is false; \<^verbatim>\<open>a <= b\<close> likewise.\<close>

definition js_gt :: "jsnum \<Rightarrow> jsnum \<Rightarrow> bool" where
  "js_gt a b = js_lt b a"

definition js_ge :: "jsnum \<Rightarrow> jsnum \<Rightarrow> bool" where
  "js_ge a b = (a \<noteq> NaN \<and> b \<noteq> NaN \<and> \<not> js_lt a b)"

definition js_le :: "jsnum \<Rightarrow> jsnum \<Rightarrow> bool" where
  "js_le a b = js_ge b a"

definition isNaN :: "jsnum \<Rightarrow> bool" where
  "isNaN a = (a = NaN)"

text \<open>\<^verbatim>\<open>a - b\<close>: NaN when a side is NaN or when both are the same infinity.\<close>

fun js_sub :: "jsnum \<Rightarrow> jsnum \<Rightarrow> jsnum" where
  "js_sub NaN b = NaN"
| "js_sub a NaN = NaN"
| "js_sub PosInf PosInf = NaN"
| "js_sub NegInf NegInf = NaN"
| "js_sub PosInf b = PosInf"
| "js_sub NegInf b = NegInf"
| "js_sub (Fin x) PosInf = NegInf"
| "js_sub (Fin x) NegInf = PosInf"
| "js_sub (Fin x) (Fin y) = Fin (x - y)"

section \<open>Candles (types.ts, CandleData)\<close>

text \<open>The field \<^verbatim>\<open>open\<close> is named \<open>open_c\<close>: \<open>open\<close> is a constant of the library.\<close>

record candle =
  time :: jsnum
  ts :: string
  open_c :: jsnum
  high :: jsnum
  low :: jsnum
  close :: jsnum
  volume :: jsnum
  oi :: "jsnum option"

section \<open>The normalizer (chartDataService.ts, data cleaning helpers)\<close>

text \<open>
  \<^verbatim>\<open>deduplicateCandles\<close>: the loop over the candles with the set \<^verbatim>\<open>seen\<close> of the time
  values met so far and the array \<^verbatim>\<open>unique\<close> it pushes to. \<^verbatim>\<open>Set.has\<close> compares with
  SameValueZero, for which NaN is equal to NaN: the equality of \<^typ>\<open>jsnum\<close>.
\<close>

fun dedup_loop :: "candle list \<Rightarrow> jsnum set \<Rightarrow> candle list \<Rightarrow> candle list" where
  "dedup_loop [] seen unique = unique"
| "dedup_loop (c # cs) seen unique =
     (if time c \<notin> seen then dedup_loop cs (insert (time c) seen) (unique @ [c])
      else dedup_loop cs seen unique)"

definition deduplicateCandles :: "candle list \<Rightarrow> candle list" where
  "deduplicateCandles candles = dedup_loop candles {} []"

text \<open>
  \<^verbatim>\<open>validateCandles\<close>: the predicate of the filter, in the order of the source. The
  tests \<^verbatim>\<open>typeof c.open === 'number'\<close> hold by the type of the fields.
\<close>

definition isValid :: "candle \<Rightarrow> bool" where
  "isValid c =
     (\<not> isNaN (open_c c) \<and> js_gt (open_c c) (Fin 0) \<and>
      \<not> isNaN (high c) \<and> js_gt (high c) (Fin 0) \<and>
      \<not> isNaN (low c) \<and> js_gt (low c) (Fin 0) \<and>
      \<not> isNaN (close c) \<and> js_gt (close c) (Fin 0) \<and>
      \<not> isNaN (volume c) \<and> js_ge (volume c) (Fin 0))"

definition keepCandle :: "candle \<Rightarrow> bool" where
  "keepCandle c =
     (if \<not> isValid c then False
      else if js_lt (high c) (low c) then False
      else if js_lt (high c) (open_c c) \<or> js_lt (high c) (close c) \<or>
              js_gt (low c) (open_c c) \<or> js_gt (low c) (close c) then False
      else True)"

definition validateCandles :: "candle list \<Rightarrow> candle list" where
  "validateCandles candles = filter keepCandle candles"

text \<open>
  \<^verbatim>\<open>sortCandles\<close>: \<^verbatim>\<open>[...candles].sort((a, b) => a.time - b.time)\<close>. The sort calls the
  comparator and reads a NaN result as \<open>+0\<close> (\<open>sortCompare\<close>). When the comparator is
  consistent on the elements, ECMAScript fixes the result: with times that are pairwise
  distinct, as they are after the deduplication, it is the list in increasing time,
  whatever the engine's algorithm. When a time is NaN the comparator is not consistent and
  the order of the result is the engine's choice. \<open>sortCandles\<close> is the sort of one
  engine, an insertion sort that keeps an element before the elements it does not compare
  greater than; it stands for the source where the order left for NaN times does not
  matter. The section on sort engines below has the sort as a parameter, for what depends
  on that order.
\<close>

definition compareTime :: "candle \<Rightarrow> candle \<Rightarrow> jsnum" where
  "compareTime a b = js_sub (time a) (time b)"

definition sortCompare :: "candle \<Rightarrow> candle \<Rightarrow> jsnum" where
  "sortCompare a b = (let v = compareTime a b in if isNaN v then Fin 0 else v)"

fun sort_insert :: "candle \<Rightarrow> candle list \<Rightarrow> candle list" where
  "sort_insert a [] = [a]"
| "sort_insert a (b # bs) =
     (if js_gt (sortCompare a b) (Fin 0) then b # sort_insert a bs else a # b # bs)"

fun sortCandles :: "candle list \<Rightarrow> candle list" where
  "sortCandles [] = []"
| "sortCandles (c # cs) = sort_insert c (sortCandles cs)"

definition cleanChartData :: "candle list \<Rightarrow> candle list" where
  "cleanChartData candles =
     (if candles = [] then []
      else sortCandles (deduplicateCandles (validateCandles candles)))"

text \<open>The properties of a candle series (spec, section 3).\<close>

definition ohlc_ordered :: "candle \<Rightarrow> bool" where
  "ohlc_ordered c =
     (js_le (low c) (open_c c) \<and> js_le (open_c c) (high c) \<and>
      js_le (low c) (close c) \<and> js_le (close c) (high c) \<and> js_le (low c) (high c))"

definition strictly_increasing :: "jsnum list \<Rightarrow> bool" where
  "strictly_increasing tms = sorted_wrt js_lt tms"

text \<open>
  Predicates of the statements below. \<open>non_finite\<close> and \<open>non_positive\<close> are the
  words of the specification; \<open>nan_or_nonpositive\<close> and \<open>nan_or_negative\<close> are what
  the tests \<^verbatim>\<open>!isNaN(x) && x > 0\<close> and \<^verbatim>\<open>!isNaN(x) && x >= 0\<close> reject.
\<close>

definition non_finite :: "jsnum \<Rightarrow> bool" where
  "non_finite a = (case a of Fin x \<Rightarrow> False | _ \<Rightarrow> True)"

definition non_positive :: "jsnum \<Rightarrow> bool" where
  "non_positive a = js_le a (Fin 0)"

definition negative :: "jsnum \<Rightarrow> bool" where
  "negative a = js_lt a (Fin 0)"

definition spec_rejects :: "candle \<Rightarrow> bool" where
  "spec_rejects c =
     (non_finite (open_c c) \<or> non_positive (open_c c) \<or>
      non_finite (high c) \<or> non_positive (high c) \<or>
      non_finite (low c) \<or> non_positive (low c) \<or>
      non_finite (close c) \<or> non_positive (close c) \<or>
      negative (volume c))"

definition nan_or_nonpositive :: "jsnum \<Rightarrow> bool" where
  "nan_or_nonpositive a =
     (case a of NaN \<Rightarrow> True | NegInf \<Rightarrow> True | Fin x \<Rightarrow> x \<le> 0 | PosInf \<Rightarrow> False)"

definition nan_or_negative :: "jsnum \<Rightarrow> bool" where
  "nan_or_negative a =
     (case a of NaN \<Rightarrow> True | NegInf \<Rightarrow> True | Fin x \<Rightarrow> x < 0 | PosInf \<Rightarrow> False)"

definition number_check_fails :: "candle \<Rightarrow> bool" where
  "number_check_fails c =
     (nan_or_nonpositive (open_c c) \<or> nan_or_nonpositive (high c) \<or>
      nan_or_nonpositive (low c) \<or> nan_or_nonpositive (close c) \<or>
      nan_or_negative (volume c))"

text \<open>A candle whose four prices are \<open>p\<close>, with volume 0, at time \<open>t\<close>.\<close>

definition flat_candle :: "jsnum \<Rightarrow> jsnum \<Rightarrow> candle" where
  "flat_candle t p =
     \<lparr>time = t, ts = [], open_c = p, high = p, low = p, close = p, volume = Fin 0, oi = None\<rparr>"

text \<open>Auxiliary notion of the proofs: the order of two candles by time.\<close>

definition time_le :: "candle \<Rightarrow> candle \<Rightarrow> bool" where
  "time_le a b = js_le (time a) (time b)"

section \<open>Sort engines\<close>

text \<open>
  \<^verbatim>\<open>Array.prototype.sort\<close> is the engine's. ECMAScript (Array.prototype.sort,
  SortIndexedProperties) says what every engine does: the engine compares through
  \<open>SortCompare\<close>, which calls the comparator and returns \<open>+0\<close> for NaN; the result is a
  permutation of the items; and when \<open>SortCompare\<close> is a consistent comparator for the
  items, no item of the result is before an item that compares less than it. A comparator
  is consistent for a set when it never returns NaN and its three relations \<open><\<close>, \<open>=\<close>,
  \<open>>\<close> with zero are reflexive, symmetric and transitive as the standard lists them. When
  it is not consistent, the order is implementation-defined. \<open>conforming\<close> is this
  contract; the standard also asks for stability, which nothing below needs.
  \<open>sortCandles_on\<close> and \<open>cleanChartData_on\<close> are \<^verbatim>\<open>sortCandles\<close> and
  \<^verbatim>\<open>cleanChartData\<close> on an engine whose sort is \<open>srt\<close>.
\<close>

type_synonym comparefn = "candle \<Rightarrow> candle \<Rightarrow> jsnum"

type_synonym sort_engine = "comparefn \<Rightarrow> candle list \<Rightarrow> candle list"

definition SortCompare :: "comparefn \<Rightarrow> candle \<Rightarrow> candle \<Rightarrow> jsnum" where
  "SortCompare comparefn x y = (let v = comparefn x y in if isNaN v then Fin 0 else v)"

definition ltC :: "comparefn \<Rightarrow> candle \<Rightarrow> candle \<Rightarrow> bool" where
  "ltC comparator a b = js_lt (comparator a b) (Fin 0)"

definition eqC :: "comparefn \<Rightarrow> candle \<Rightarrow> candle \<Rightarrow> bool" where
  "eqC comparator a b = (comparator a b = Fin 0)"

definition gtC :: "comparefn \<Rightarrow> candle \<Rightarrow> candle \<Rightarrow> bool" where
  "gtC comparator a b = js_gt (comparator a b) (Fin 0)"

definition consistent_comparator :: "comparefn \<Rightarrow> candle set \<Rightarrow> bool" where
  "consistent_comparator comparator S =
     (\<forall>a\<in>S. \<forall>b\<in>S. \<forall>c\<in>S.
        comparator a b \<noteq> NaN \<and>
        eqC comparator a a \<and>
        (eqC comparator a b \<longrightarrow> eqC comparator b a) \<and>
        (eqC comparator a b \<and> eqC comparator b c \<longrightarrow> eqC comparator a c) \<and>
        (ltC comparator a b \<and> ltC comparator b c \<longrightarrow> ltC comparator a c) \<and>
        (gtC comparator a b \<and> gtC comparator b c \<longrightarrow> gtC comparator a c))"

definition conforming :: "sort_engine \<Rightarrow> bool" where
  "conforming srt =
     (\<forall>comparefn items.
        mset (srt comparefn items) = mset items \<and>
        (consistent_comparator (SortCompare comparefn) (set items) \<longrightarrow>
           sorted_wrt (\<lambda>x y. \<not> ltC (SortCompare comparefn) y x) (srt comparefn items)))"

definition sortCandles_on :: "sort_engine \<Rightarrow> candle list \<Rightarrow> candle list" where
  "sortCandles_on srt candles = srt compareTime candles"

definition cleanChartData_on :: "sort_engine \<Rightarrow> candle list \<Rightarrow> candle list" where
  "cleanChartData_on srt candles =
     (if candles = [] then []
      else sortCandles_on srt (deduplicateCandles (validateCandles candles)))"

text \<open>
  Two engines. The first is the insertion sort above, for any comparator:
  \<open>cleanChartData\<close> is \<open>cleanChartData_on insertion_sort\<close>
  (\<open>cleanChartData_instance\<close>). The second is
  a stable bottom-up merge sort: the items as runs of length one, adjacent runs merged
  pairwise, pass after pass, until one run is left; the merge takes from the right run
  only an item that compares less than the head of the left run. Both meet the contract
  (\<open>insertion_sort_conforming\<close>, \<open>merge_sort_conforming\<close>).
\<close>

fun insert_sorted :: "comparefn \<Rightarrow> candle \<Rightarrow> candle list \<Rightarrow> candle list" where
  "insert_sorted comparefn a [] = [a]"
| "insert_sorted comparefn a (b # bs) =
     (if gtC (SortCompare comparefn) a b then b # insert_sorted comparefn a bs else a # b # bs)"

fun insertion_sort :: sort_engine where
  "insertion_sort comparefn [] = []"
| "insertion_sort comparefn (c # cs) = insert_sorted comparefn c (insertion_sort comparefn cs)"

fun merge_runs :: "comparefn \<Rightarrow> candle list \<Rightarrow> candle list \<Rightarrow> candle list" where
  "merge_runs comparefn [] ys = ys"
| "merge_runs comparefn xs [] = xs"
| "merge_runs comparefn (x # xs) (y # ys) =
     (if ltC (SortCompare comparefn) y x then y # merge_runs comparefn (x # xs) ys
      else x # merge_runs comparefn xs (y # ys))"

fun merge_pairs :: "comparefn \<Rightarrow> candle list list \<Rightarrow> candle list list" where
  "merge_pairs comparefn [] = []"
| "merge_pairs comparefn [xs] = [xs]"
| "merge_pairs comparefn (xs # ys # rest) = merge_runs comparefn xs ys # merge_pairs comparefn rest"

function merge_passes :: "comparefn \<Rightarrow> candle list list \<Rightarrow> candle list" where
  "merge_passes comparefn [] = []"
| "merge_passes comparefn [xs] = xs"
| "merge_passes comparefn (xs # ys # rest) = merge_passes comparefn (merge_pairs comparefn (xs # ys # rest))"
  by pat_completeness auto
termination
proof (relation "measure (\<lambda>(c, xss). length xss)")
  show "wf (measure (\<lambda>(c, xss). length xss))" by simp
next
  fix comparefn xs ys rest
  have "length (merge_pairs comparefn rest) \<le> length rest"
    by (induction comparefn rest rule: merge_pairs.induct) auto
  then show "((comparefn, merge_pairs comparefn (xs # ys # rest)), (comparefn, xs # ys # rest))
        \<in> measure (\<lambda>(c, xss). length xss)" by simp
qed

definition merge_sort :: sort_engine where
  "merge_sort comparefn items = merge_passes comparefn (map (\<lambda>x. [x]) items)"

text \<open>Auxiliary notion of the proofs: runs of items of a set, each in order.\<close>

definition runs_ok :: "comparefn \<Rightarrow> candle set \<Rightarrow> candle list list \<Rightarrow> bool" where
  "runs_ok f S xss =
     list_all (\<lambda>xs. set xs \<subseteq> S \<and> sorted_wrt (\<lambda>x y. \<not> ltC (SortCompare f) y x) xs) xss"

text \<open>A candle with good prices at a given time, and a batch of five of them, the third
  with the time NaN.\<close>

definition candle_at :: "jsnum \<Rightarrow> candle" where
  "candle_at t = flat_candle t (Fin 1)"

definition nan_batch :: "candle list" where
  "nan_batch = map candle_at [Fin 1, Fin 4, NaN, Fin 2, Fin 3]"

section \<open>Market days and market hours\<close>

text \<open>
  A \<^verbatim>\<open>Date\<close> is its time value, the milliseconds since the epoch. The getters
  \<^verbatim>\<open>getDay\<close>, \<^verbatim>\<open>getHours\<close>, \<^verbatim>\<open>getMinutes\<close> read the date in the zone of the runtime,
  taken to have a fixed offset: \<open>tzo\<close> is the value of \<^verbatim>\<open>getTimezoneOffset()\<close>, the
  minutes from local time to UTC. Day 0 of the epoch is a Thursday.
  \<^verbatim>\<open>d.setDate(d.getDate() - k)\<close> moves the date \<open>k\<close> days back at the same local time
  (\<open>setDateBack\<close>). \<open>localDate\<close> is the local calendar day, counted from the epoch.
\<close>

type_synonym js_date = int

definition localMs :: "int \<Rightarrow> js_date \<Rightarrow> int" where
  "localMs tzo d = d - tzo * 60000"

definition getDay :: "int \<Rightarrow> js_date \<Rightarrow> int" where
  "getDay tzo d = (localMs tzo d div 86400000 + 4) mod 7"

definition getHours :: "int \<Rightarrow> js_date \<Rightarrow> int" where
  "getHours tzo d = (localMs tzo d mod 86400000) div 3600000"

definition getMinutes :: "int \<Rightarrow> js_date \<Rightarrow> int" where
  "getMinutes tzo d = (localMs tzo d mod 3600000) div 60000"

definition localDate :: "int \<Rightarrow> js_date \<Rightarrow> int" where
  "localDate tzo d = localMs tzo d div 86400000"

definition setDateBack :: "js_date \<Rightarrow> int \<Rightarrow> js_date" where
  "setDateBack d k = d - k * 86400000"

text \<open>\<^verbatim>\<open>getLastMarketDay\<close> (chartDataService.ts); \<open>now\<close> is the time value of
  \<^verbatim>\<open>new Date()\<close>, and \<^verbatim>\<open>5.5 * 60 * 60 * 1000\<close> is 19800000.\<close>

definition getLastMarketDay :: "int \<Rightarrow> int \<Rightarrow> js_date" where
  "getLastMarketDay tzo now =
     (let istOffset = 19800000;
          utc = now + tzo * 60 * 1000;
          istTime = utc + istOffset;
          dayOfWeek = getDay tzo istTime;
          hours = getHours tzo istTime;
          minutes = getMinutes tzo istTime
      in if dayOfWeek = 0 then setDateBack istTime 2
         else if dayOfWeek = 6 then setDateBack istTime 1
         else if hours < 9 \<or> (hours = 9 \<and> minutes < 15) then
           (if dayOfWeek = 1 then setDateBack istTime 3 else setDateBack istTime 1)
         else istTime)"

text \<open>\<^verbatim>\<open>isWithinMarketHours\<close> (chartDataService.ts).\<close>

definition isWithinMarketHours :: "int \<Rightarrow> int \<Rightarrow> bool" where
  "isWithinMarketHours tzo now =
     (let istOffset = 19800000;
          utc = now + tzo * 60 * 1000;
          istTime = utc + istOffset;
          dayOfWeek = getDay tzo istTime;
          hours = getHours tzo istTime;
          minutes = getMinutes tzo istTime
      in if dayOfWeek = 0 \<or> dayOfWeek = 6 then False
         else if hours < 9 \<or> (hours = 9 \<and> minutes < 15) then False
         else if hours > 15 \<or> (hours = 15 \<and> minutes \<ge> 30) then False
         else True)"

text \<open>\<^verbatim>\<open>isMarketOpen\<close> (apiConfig.ts): here the offset is in minutes, and the close of
  15:30 is inclusive.\<close>

definition isMarketOpen :: "int \<Rightarrow> int \<Rightarrow> bool" where
  "isMarketOpen tzo now =
     (let istOffset = 330;
          utc = now + tzo * 60000;
          istTime = utc + istOffset * 60000;
          day = getDay tzo istTime;
          hours = getHours tzo istTime;
          minutes = getMinutes tzo istTime;
          timeInMinutes = hours * 60 + minutes
      in if day = 0 \<or> day = 6 then False
         else let marketOpen = 9 * 60 + 15; marketClose = 15 * 60 + 30
              in timeInMinutes \<ge> marketOpen \<and> timeInMinutes \<le> marketClose)"

text \<open>
  The wall clock of India at an instant, written without the runtime's zone: the
  calendar day counted from the epoch, the day of the week (0 is Sunday) and the minute of
  the day. \<open>istTime_of\<close> is the shifted date that the source builds.
\<close>

definition ist_date :: "int \<Rightarrow> int" where
  "ist_date now = (now + 19800000) div 86400000"

definition ist_weekday :: "int \<Rightarrow> int" where
  "ist_weekday now = (ist_date now + 4) mod 7"

definition ist_minute_of_day :: "int \<Rightarrow> int" where
  "ist_minute_of_day now = ((now + 19800000) mod 86400000) div 60000"

definition istTime_of :: "int \<Rightarrow> int \<Rightarrow> js_date" where
  "istTime_of tzo now = now + tzo * 60 * 1000 + 19800000"

section \<open>The market websocket (chartDataService.ts)\<close>

text \<open>
  The module keeps one connection in \<^verbatim>\<open>wsConnection\<close>, a counter of reconnect attempts
  and the handle of the reconnect timer. Every \<^verbatim>\<open>WebSocket\<close> the module creates is an
  entry of \<open>sockets\<close>, named by its index: its ready state, the \<^verbatim>\<open>instrumentKeys\<close> that
  the handlers of this socket have captured from the call of \<^verbatim>\<open>connectMarketWebSocket\<close>
  which created it, and the messages passed to \<^verbatim>\<open>send\<close>. Every timeout set by
  \<^verbatim>\<open>setTimeout\<close> is an entry of \<open>timers\<close>, named by its index: its delay, the keys its
  callback reconnects with, and whether it is still pending. \<open>statusLog\<close> lists the calls
  of \<^verbatim>\<open>onConnectionChange\<close>.
\<close>

datatype ready_state = CONNECTING | OPEN | CLOSING | CLOSED

datatype ws_action = subscribe | unsubscribe

datatype ws_mode = ltpc | full

record WebSocketMessage =
  action :: ws_action
  mode :: ws_mode
  instrumentKeys :: "string list"

datatype conn_status = StatusConnected | StatusDisconnected | StatusError

record socket =
  readyState :: ready_state
  handlerKeys :: "string list"
  sent :: "WebSocketMessage list"

record timer =
  timeout_ms :: nat
  reconnectKeys :: "string list"
  pending :: bool

record ws_state =
  sockets :: "socket list"
  timers :: "timer list"
  wsConnection :: "nat option"
  wsReconnectAttempts :: nat
  wsReconnectTimer :: "nat option"
  statusLog :: "conn_status list"

definition MAX_RECONNECT_ATTEMPTS :: nat where
  "MAX_RECONNECT_ATTEMPTS = 5"

definition ws_init :: ws_state where
  "ws_init =
     \<lparr>sockets = [], timers = [], wsConnection = None, wsReconnectAttempts = 0,
      wsReconnectTimer = None, statusLog = []\<rparr>"

text \<open>\<^verbatim>\<open>subscribeToInstruments\<close>: a message on the socket that \<^verbatim>\<open>wsConnection\<close> holds
  now, when there is one and it is open. \<^verbatim>\<open>wsConnection\<close> only ever holds a socket the
  module has created.\<close>

definition subscribeToInstruments :: "ws_state \<Rightarrow> string list \<Rightarrow> ws_state" where
  "subscribeToInstruments st keys =
     (case wsConnection st of
        None \<Rightarrow> st
      | Some i \<Rightarrow>
          if length (sockets st) \<le> i \<or> readyState (sockets st ! i) \<noteq> OPEN then st
          else st\<lparr>sockets := (sockets st)[i := (sockets st ! i)
                 \<lparr>sent := sent (sockets st ! i) @
                    [\<lparr>action = subscribe, mode = full, instrumentKeys = keys\<rparr>]\<rparr>]\<rparr>)"

text \<open>\<^verbatim>\<open>connectMarketWebSocket\<close>, up to the creation of the socket; \<open>token\<close> is the
  result of \<^verbatim>\<open>getToken()\<close>, which is falsy when absent or empty. The handlers it installs
  are \<open>onopen\<close>, \<open>onerror\<close> and \<open>onclose\<close> below.\<close>

definition connectMarketWebSocket :: "string option \<Rightarrow> ws_state \<Rightarrow> string list \<Rightarrow> ws_state" where
  "connectMarketWebSocket token st keys =
     (if wsConnection st \<noteq> None then subscribeToInstruments st keys
      else if token = None \<or> token = Some [] then st\<lparr>statusLog := statusLog st @ [StatusError]\<rparr>
      else st\<lparr>sockets := sockets st @ [\<lparr>readyState = CONNECTING, handlerKeys = keys, sent = []\<rparr>],
              wsConnection := Some (length (sockets st))\<rparr>)"

definition onopen :: "ws_state \<Rightarrow> nat \<Rightarrow> ws_state" where
  "onopen st i =
     subscribeToInstruments
       (st\<lparr>wsReconnectAttempts := 0, statusLog := statusLog st @ [StatusConnected]\<rparr>)
       (handlerKeys (sockets st ! i))"

definition onerror :: "ws_state \<Rightarrow> nat \<Rightarrow> ws_state" where
  "onerror st i = st\<lparr>statusLog := statusLog st @ [StatusError]\<rparr>"

text \<open>The delay of the reconnect,
  \<^verbatim>\<open>Math.min(1000 * Math.pow(2, wsReconnectAttempts), 30000)\<close>.\<close>

definition reconnectDelay :: "nat \<Rightarrow> nat" where
  "reconnectDelay attempts = min (1000 * 2 ^ attempts) 30000"

text \<open>\<^verbatim>\<open>onclose\<close> of socket \<open>i\<close>, run at the instant \<open>now\<close>. The handler does not look at
  the close event: it is the same for every close.\<close>

definition onclose :: "int \<Rightarrow> int \<Rightarrow> ws_state \<Rightarrow> nat \<Rightarrow> ws_state" where
  "onclose tzo now st i =
     (let st1 = st\<lparr>wsConnection := None, statusLog := statusLog st @ [StatusDisconnected]\<rparr>
      in if isMarketOpen tzo now \<and> wsReconnectAttempts st1 < MAX_RECONNECT_ATTEMPTS then
           let delay = reconnectDelay (wsReconnectAttempts st1)
           in st1\<lparr>wsReconnectAttempts := wsReconnectAttempts st1 + 1,
                  timers := timers st1 @
                    [\<lparr>timeout_ms = delay, reconnectKeys = handlerKeys (sockets st ! i),
                      pending = True\<rparr>],
                  wsReconnectTimer := Some (length (timers st1))\<rparr>
         else st1)"

text \<open>\<^verbatim>\<open>clearTimeout\<close>, and \<^verbatim>\<open>close()\<close> of a socket: a socket that is connecting or open
  starts closing, and its close event comes later.\<close>

definition clearTimeout :: "timer list \<Rightarrow> nat \<Rightarrow> timer list" where
  "clearTimeout tms h = (if h < length tms then tms[h := (tms ! h)\<lparr>pending := False\<rparr>] else tms)"

definition close_socket :: "socket list \<Rightarrow> nat \<Rightarrow> socket list" where
  "close_socket ss i =
     (if i < length ss \<and> (readyState (ss ! i) = CONNECTING \<or> readyState (ss ! i) = OPEN)
      then ss[i := (ss ! i)\<lparr>readyState := CLOSING\<rparr>] else ss)"

definition disconnectMarketWebSocket :: "ws_state \<Rightarrow> ws_state" where
  "disconnectMarketWebSocket st =
     (let st1 = (case wsReconnectTimer st of
                   None \<Rightarrow> st
                 | Some h \<Rightarrow> st\<lparr>timers := clearTimeout (timers st) h, wsReconnectTimer := None\<rparr>);
          st2 = (case wsConnection st1 of
                   None \<Rightarrow> st1
                 | Some i \<Rightarrow> st1\<lparr>sockets := close_socket (sockets st1) i, wsConnection := None\<rparr>)
      in st2\<lparr>wsReconnectAttempts := 0\<rparr>)"

text \<open>
  What happens to the module, one event at a time: a call of its two exported functions,
  or an event that the runtime delivers. A socket that is connecting opens (its ready
  state becomes open and \<open>onopen\<close> runs), a socket that is not yet closed closes at an
  instant (its ready state becomes closed and \<open>onclose\<close> runs), a pending timer fires (its
  callback calls \<^verbatim>\<open>connectMarketWebSocket\<close> with the keys it has captured). The
  runtime delivers no other open, close or timer event.
\<close>

datatype ws_event =
    CallConnect "string option" "string list"
  | CallDisconnect
  | SocketOpens nat
  | SocketErrors nat
  | SocketCloses nat int
  | TimerFires nat "string option"

fun ws_step :: "int \<Rightarrow> ws_state \<Rightarrow> ws_event \<Rightarrow> ws_state" where
  "ws_step tzo st (CallConnect token keys) = connectMarketWebSocket token st keys"
| "ws_step tzo st CallDisconnect = disconnectMarketWebSocket st"
| "ws_step tzo st (SocketOpens i) =
     (if i < length (sockets st) \<and> readyState (sockets st ! i) = CONNECTING
      then onopen (st\<lparr>sockets := (sockets st)[i := (sockets st ! i)\<lparr>readyState := OPEN\<rparr>]\<rparr>) i
      else st)"
| "ws_step tzo st (SocketErrors i) = (if i < length (sockets st) then onerror st i else st)"
| "ws_step tzo st (SocketCloses i now) =
     (if i < length (sockets st) \<and> readyState (sockets st ! i) \<noteq> CLOSED
      then onclose tzo now (st\<lparr>sockets := (sockets st)[i := (sockets st ! i)\<lparr>readyState := CLOSED\<rparr>]\<rparr>) i
      else st)"
| "ws_step tzo st (TimerFires h token) =
     (if h < length (timers st) \<and> pending (timers st ! h)
      then connectMarketWebSocket token
             (st\<lparr>timers := (timers st)[h := (timers st ! h)\<lparr>pending := False\<rparr>]\<rparr>)
             (reconnectKeys (timers st ! h))
      else st)"

definition ws_run :: "int \<Rightarrow> ws_state \<Rightarrow> ws_event list \<Rightarrow> ws_state" where
  "ws_run tzo st evs = foldl (ws_step tzo) st evs"



section \<open>The candle fetcher (chartDataService.ts)\<close>

datatype Timeframe = TF_1D | TF_1W | TF_1M | TF_2M | TF_3M | TF_1Y

datatype CandleInterval = I_1m | I_5m | I_15m | I_1h | I_1d

datatype api_unit = Unit_minutes | Unit_hours | Unit_days

fun timeframe_str :: "Timeframe \<Rightarrow> string" where
  "timeframe_str TF_1D = ''1D''"
| "timeframe_str TF_1W = ''1W''"
| "timeframe_str TF_1M = ''1M''"
| "timeframe_str TF_2M = ''2M''"
| "timeframe_str TF_3M = ''3M''"
| "timeframe_str TF_1Y = ''1Y''"

fun interval_str :: "CandleInterval \<Rightarrow> string" where
  "interval_str I_1m = ''1m''"
| "interval_str I_5m = ''5m''"
| "interval_str I_15m = ''15m''"
| "interval_str I_1h = ''1h''"
| "interval_str I_1d = ''1d''"

definition getCacheKey :: "string \<Rightarrow> Timeframe \<Rightarrow> CandleInterval \<Rightarrow> string" where
  "getCacheKey instrumentKey timeframe interval =
     instrumentKey @ ''|'' @ timeframe_str timeframe @ ''|'' @ interval_str interval"

definition CACHE_TTL :: int where
  "CACHE_TTL = 5 * 60 * 1000"

text \<open>
  The state of the module: the cache, the map \<^verbatim>\<open>activeRequests\<close> from cache keys to
  \<^verbatim>\<open>AbortController\<close>s, and what the module has done to the world. A controller is named
  by its number of creation; \<open>aborted\<close> holds the controllers whose \<^verbatim>\<open>abort()\<close> has been
  called, and \<open>requests\<close> lists the calls of \<^verbatim>\<open>fetch\<close>, each with the controller whose
  signal it carries. The dates of a history request are calendar days counted from the
  epoch, not yet printed as text; the key is not yet URL-encoded.
\<close>

record cache_entry =
  data :: "candle list"
  timestamp :: int

datatype endpoint = CANDLES_INTRADAY | CANDLES_HISTORY

record request =
  endpoint :: endpoint
  req_instrumentKey :: string
  req_unit :: api_unit
  req_interval :: nat
  req_range :: "(int \<times> int) option"
  req_limit :: int
  req_signal :: nat

record fetch_state =
  candleCache :: "string \<rightharpoonup> cache_entry"
  activeRequests :: "string \<rightharpoonup> nat"
  aborted :: "nat set"
  controllers :: nat
  requests :: "request list"

definition fetch_init :: fetch_state where
  "fetch_init =
     \<lparr>candleCache = Map.empty, activeRequests = Map.empty, aborted = {}, controllers = 0,
      requests = []\<rparr>"

definition getCachedData :: "int \<Rightarrow> fetch_state \<Rightarrow> string \<Rightarrow> candle list option \<times> fetch_state" where
  "getCachedData now st key =
     (case candleCache st key of
        None \<Rightarrow> (None, st)
      | Some cached \<Rightarrow>
          let age = now - timestamp cached
          in if age > CACHE_TTL then (None, st\<lparr>candleCache := (candleCache st)(key := None)\<rparr>)
             else (Some (data cached), st))"

definition setCachedData :: "int \<Rightarrow> fetch_state \<Rightarrow> string \<Rightarrow> candle list \<Rightarrow> fetch_state" where
  "setCachedData now st key d =
     st\<lparr>candleCache := (candleCache st)(key \<mapsto> \<lparr>data = d, timestamp = now\<rparr>)\<rparr>"

text \<open>The dates of a history request: \<^verbatim>\<open>toISOString().split('T')[0]\<close> is the calendar
  day in UTC.\<close>

definition isoDate :: "js_date \<Rightarrow> int" where
  "isoDate d = d div 86400000"

definition calculateDateRange :: "int \<Rightarrow> int \<Rightarrow> Timeframe \<Rightarrow> int \<times> int" where
  "calculateDateRange tzo now timeframe =
     (if timeframe = TF_1D then
        let lastMarketDay = getLastMarketDay tzo now
        in (isoDate lastMarketDay, isoDate lastMarketDay)
      else
        let toDate = now;
            fromDate = (case timeframe of
                          TF_1W \<Rightarrow> setDateBack now 7
                        | TF_1M \<Rightarrow> setDateBack now 30
                        | TF_2M \<Rightarrow> setDateBack now 60
                        | TF_3M \<Rightarrow> setDateBack now 90
                        | TF_1Y \<Rightarrow> setDateBack now 365
                        | TF_1D \<Rightarrow> now)
        in (isoDate fromDate, isoDate toDate))"

fun calculateLimit :: "Timeframe \<Rightarrow> CandleInterval \<Rightarrow> int" where
  "calculateLimit TF_1D interval = 500"
| "calculateLimit TF_1W interval = 1500"
| "calculateLimit TF_1M interval = 6000"
| "calculateLimit TF_2M interval = 6000"
| "calculateLimit TF_3M interval = 18000"
| "calculateLimit TF_1Y interval = (if interval = I_1d then 365 else 18000)"

fun intervalToApiParams :: "CandleInterval \<Rightarrow> api_unit \<times> nat" where
  "intervalToApiParams I_1m = (Unit_minutes, 1)"
| "intervalToApiParams I_5m = (Unit_minutes, 5)"
| "intervalToApiParams I_15m = (Unit_minutes, 15)"
| "intervalToApiParams I_1h = (Unit_hours, 1)"
| "intervalToApiParams I_1d = (Unit_days, 1)"

text \<open>
  The two fetch functions are asynchronous. Each runs without interruption up to its
  \<^verbatim>\<open>await fetch(...)\<close>, where it is suspended, and again without interruption from the
  settling of the request to its return; other calls and continuations may run in
  between. So each is two functions on the state: \<open>_start\<close>, which either returns the
  cached candles or leaves a suspended call, and \<open>_resume\<close>, the continuation. A
  suspended call remembers in which function it is suspended, its cache key and its
  controller.

  The settling of a request is a \<open>response\<close>: a successful response with its candles, as
  the \<^verbatim>\<open>candles.map(...)\<close> of the continuation has converted them (a time is NaN when the
  timestamp cannot be read); a response whose \<^verbatim>\<open>ok\<close> is false; or a rejection (a network
  failure, a body that is not JSON). A request whose controller has been aborted rejects
  with an \<^verbatim>\<open>AbortError\<close>, whatever the network has answered.
\<close>

datatype fetch_fn = In_getCandleHistory | In_getCandleIntraday

record suspended_call =
  p_fn :: fetch_fn
  p_cacheKey :: string
  p_controller :: nat

datatype call_state = Returned "candle list" | Awaiting suspended_call

datatype response = Res_ok "candle list" | Res_not_ok nat | Res_rejected

text \<open>The lines "cancel any previous request" and the creation and registration of the
  new controller, which both functions have.\<close>

definition register_controller :: "fetch_state \<Rightarrow> string \<Rightarrow> nat \<times> fetch_state" where
  "register_controller st cacheKey =
     (let st1 = (case activeRequests st cacheKey of
                   None \<Rightarrow> st
                 | Some existingController \<Rightarrow>
                     st\<lparr>aborted := insert existingController (aborted st),
                        activeRequests := (activeRequests st)(cacheKey := None)\<rparr>);
          controller = controllers st1
      in (controller,
          st1\<lparr>controllers := controller + 1,
              activeRequests := (activeRequests st1)(cacheKey \<mapsto> controller)\<rparr>))"

definition getCandleIntraday_start ::
  "int \<Rightarrow> fetch_state \<Rightarrow> string \<Rightarrow> CandleInterval \<Rightarrow> bool \<Rightarrow> int \<Rightarrow> call_state \<times> fetch_state" where
  "getCandleIntraday_start now st instrumentKey interval forceRefresh customLimit =
     (let cacheKey = getCacheKey instrumentKey TF_1D interval;
          (cached, st0) = (if \<not> forceRefresh then getCachedData now st cacheKey else (None, st))
      in case cached of
           Some d \<Rightarrow> (Returned d, st0)
         | None \<Rightarrow>
             let (controller, st1) = register_controller st0 cacheKey;
                 (unit, intervalNum) = intervalToApiParams interval;
                 limit = customLimit
             in (Awaiting \<lparr>p_fn = In_getCandleIntraday, p_cacheKey = cacheKey,
                           p_controller = controller\<rparr>,
                 st1\<lparr>requests := requests st1 @
                    [\<lparr>endpoint = CANDLES_INTRADAY, req_instrumentKey = instrumentKey,
                      req_unit = unit, req_interval = intervalNum, req_range = None,
                      req_limit = limit, req_signal = controller\<rparr>]\<rparr>))"

definition getCandleIntraday_resume ::
  "int \<Rightarrow> fetch_state \<Rightarrow> suspended_call \<Rightarrow> response \<Rightarrow> candle list \<times> fetch_state" where
  "getCandleIntraday_resume now st p res =
     (let cacheKey = p_cacheKey p
      in if p_controller p \<in> aborted st then
           ([], st\<lparr>activeRequests := (activeRequests st)(cacheKey := None)\<rparr>)
         else case res of
           Res_ok formattedCandles \<Rightarrow>
             let cleanedCandles = cleanChartData formattedCandles;
                 st1 = setCachedData now st cacheKey cleanedCandles
             in (cleanedCandles, st1\<lparr>activeRequests := (activeRequests st1)(cacheKey := None)\<rparr>)
         | Res_not_ok status \<Rightarrow>
             ([], st\<lparr>activeRequests := (activeRequests st)(cacheKey := None)\<rparr>)
         | Res_rejected \<Rightarrow>
             ([], st\<lparr>activeRequests := (activeRequests st)(cacheKey := None)\<rparr>))"

definition getCandleHistory_start ::
  "int \<Rightarrow> int \<Rightarrow> fetch_state \<Rightarrow> string \<Rightarrow> Timeframe \<Rightarrow> CandleInterval \<Rightarrow> bool \<Rightarrow>
   call_state \<times> fetch_state" where
  "getCandleHistory_start tzo now st instrumentKey timeframe interval forceRefresh =
     (if timeframe = TF_1D then
        getCandleIntraday_start now st instrumentKey interval forceRefresh 200
      else
        let cacheKey = getCacheKey instrumentKey timeframe interval;
            (cached, st0) = (if \<not> forceRefresh then getCachedData now st cacheKey else (None, st))
        in case cached of
             Some d \<Rightarrow> (Returned d, st0)
           | None \<Rightarrow>
               let (controller, st1) = register_controller st0 cacheKey;
                   dateRange = calculateDateRange tzo now timeframe;
                   (unit, intervalNum) = intervalToApiParams interval;
                   limit = calculateLimit timeframe interval
               in (Awaiting \<lparr>p_fn = In_getCandleHistory, p_cacheKey = cacheKey,
                             p_controller = controller\<rparr>,
                   st1\<lparr>requests := requests st1 @
                      [\<lparr>endpoint = CANDLES_HISTORY, req_instrumentKey = instrumentKey,
                        req_unit = unit, req_interval = intervalNum, req_range = Some dateRange,
                        req_limit = limit, req_signal = controller\<rparr>]\<rparr>))"

definition getCandleHistory_resume ::
  "int \<Rightarrow> fetch_state \<Rightarrow> suspended_call \<Rightarrow> response \<Rightarrow> candle list \<times> fetch_state" where
  "getCandleHistory_resume now st p res =
     (let cacheKey = p_cacheKey p
      in if p_controller p \<in> aborted st then
           ([], st\<lparr>activeRequests := (activeRequests st)(cacheKey := None)\<rparr>)
         else case res of
           Res_ok formattedCandles \<Rightarrow>
             let cleanedCandles = cleanChartData formattedCandles;
                 st1 = setCachedData now st cacheKey cleanedCandles
             in (cleanedCandles, st1\<lparr>activeRequests := (activeRequests st1)(cacheKey := None)\<rparr>)
         | Res_not_ok status \<Rightarrow>
             ([], st\<lparr>activeRequests := (activeRequests st)(cacheKey := None)\<rparr>)
         | Res_rejected \<Rightarrow>
             ([], st\<lparr>activeRequests := (activeRequests st)(cacheKey := None)\<rparr>))"

definition resume :: "int \<Rightarrow> fetch_state \<Rightarrow> suspended_call \<Rightarrow> response \<Rightarrow> candle list \<times> fetch_state" where
  "resume now st p res =
     (case p_fn p of
        In_getCandleHistory \<Rightarrow> getCandleHistory_resume now st p res
      | In_getCandleIntraday \<Rightarrow> getCandleIntraday_resume now st p res)"

text \<open>A whole call with nothing in between: started at \<open>now\<close>, its request settled at
  \<open>now'\<close> with \<open>res\<close>.\<close>

definition getCandleIntraday_call ::
  "int \<Rightarrow> fetch_state \<Rightarrow> string \<Rightarrow> CandleInterval \<Rightarrow> bool \<Rightarrow> int \<Rightarrow> int \<Rightarrow> response \<Rightarrow>
   candle list \<times> fetch_state" where
  "getCandleIntraday_call now st instrumentKey interval forceRefresh customLimit now' res =
     (case getCandleIntraday_start now st instrumentKey interval forceRefresh customLimit of
        (Returned d, st') \<Rightarrow> (d, st')
      | (Awaiting p, st') \<Rightarrow> resume now' st' p res)"

definition getCandleHistory_call ::
  "int \<Rightarrow> int \<Rightarrow> fetch_state \<Rightarrow> string \<Rightarrow> Timeframe \<Rightarrow> CandleInterval \<Rightarrow> bool \<Rightarrow> int \<Rightarrow> response \<Rightarrow>
   candle list \<times> fetch_state" where
  "getCandleHistory_call tzo now st instrumentKey timeframe interval forceRefresh now' res =
     (case getCandleHistory_start tzo now st instrumentKey timeframe interval forceRefresh of
        (Returned d, st') \<Rightarrow> (d, st')
      | (Awaiting p, st') \<Rightarrow> resume now' st' p res)"

text \<open>The body of \<^verbatim>\<open>poll\<close> in \<^verbatim>\<open>startPollingFallback\<close>, up to its await: nothing when
  the market is closed (the polling stops; its timer is not part of this state), else
  the call \<^verbatim>\<open>getCandleIntraday(instrumentKey, interval, true)\<close>, whose limit is the
  default of 500.\<close>

definition poll ::
  "int \<Rightarrow> int \<Rightarrow> fetch_state \<Rightarrow> string \<Rightarrow> CandleInterval \<Rightarrow> (call_state \<times> fetch_state) option" where
  "poll tzo now st instrumentKey interval =
     (if \<not> isWithinMarketHours tzo now then None
      else Some (getCandleIntraday_start now st instrumentKey interval True 500))"

text \<open>
  The event loop, for calls that overlap: the state of the module, the suspended calls
  and the lists returned so far. An event is a call of one of the two functions at an
  instant, or the settling at an instant of the request that carries a controller's
  signal, which resumes the call suspended on it.
\<close>

record loop_state =
  fstate :: fetch_state
  suspended :: "suspended_call list"
  returned :: "candle list list"

datatype fetch_event =
    CallIntraday int string CandleInterval bool int
  | CallHistory int string Timeframe CandleInterval bool
  | Settles int nat response

definition after_start :: "loop_state \<Rightarrow> call_state \<times> fetch_state \<Rightarrow> loop_state" where
  "after_start ls r =
     (case r of
        (Returned d, st') \<Rightarrow> ls\<lparr>fstate := st', returned := returned ls @ [d]\<rparr>
      | (Awaiting p, st') \<Rightarrow> ls\<lparr>fstate := st', suspended := suspended ls @ [p]\<rparr>)"

fun fetch_step :: "int \<Rightarrow> loop_state \<Rightarrow> fetch_event \<Rightarrow> loop_state" where
  "fetch_step tzo ls (CallIntraday now k i force customLimit) =
     after_start ls (getCandleIntraday_start now (fstate ls) k i force customLimit)"
| "fetch_step tzo ls (CallHistory now k tf i force) =
     after_start ls (getCandleHistory_start tzo now (fstate ls) k tf i force)"
| "fetch_step tzo ls (Settles now c res) =
     (case find (\<lambda>p. p_controller p = c) (suspended ls) of
        None \<Rightarrow> ls
      | Some p \<Rightarrow>
          (case resume now (fstate ls) p res of
             (d, st') \<Rightarrow>
               ls\<lparr>fstate := st',
                  suspended := filter (\<lambda>p. p_controller p \<noteq> c) (suspended ls),
                  returned := returned ls @ [d]\<rparr>))"

definition fetch_run :: "int \<Rightarrow> fetch_event list \<Rightarrow> loop_state" where
  "fetch_run tzo evs =
     foldl (fetch_step tzo) \<lparr>fstate = fetch_init, suspended = [], returned = []\<rparr> evs"

section \<open>Scenarios\<close>

text \<open>
  Three forced intraday fetches of one instrument and interval that overlap. The second
  starts while the first is in flight; the first then ends, rejected by its abort; the
  third starts while the second is in flight; the third's response arrives, then the
  second's.
\<close>

definition three_fetches :: "fetch_event list" where
  "three_fetches =
     [CallIntraday 0 ''K'' I_1m True 500,
      CallIntraday 1 ''K'' I_1m True 500,
      Settles 2 0 Res_rejected,
      CallIntraday 3 ''K'' I_1m True 500,
      Settles 4 2 (Res_ok [flat_candle (Fin 30) (Fin 3)]),
      Settles 5 1 (Res_ok [flat_candle (Fin 20) (Fin 2)])]"

text \<open>A state of the websocket module after two reconnect attempts that did not lead to
  an open connection; socket 0 has just closed.\<close>

definition two_failed_attempts :: ws_state where
  "two_failed_attempts =
     \<lparr>sockets = [\<lparr>readyState = CLOSED, handlerKeys = [''K''], sent = []\<rparr>], timers = [],
      wsConnection = Some 0, wsReconnectAttempts = 2, wsReconnectTimer = None, statusLog = []\<rparr>"

section \<open>Properties of the normalizer\<close>

lemma dedup_loop_append: "dedup_loop cs seen (u @ v) = u @ dedup_loop cs seen v"
  by (induction cs arbitrary: seen v) auto

lemma dedup_loop_acc: "dedup_loop cs seen u = u @ dedup_loop cs seen []"
  using dedup_loop_append [of cs seen u "[]"] by simp

lemma dedup_loop_set: "set (dedup_loop cs seen []) \<subseteq> set cs"
proof (induction cs arbitrary: seen)
  case Nil
  show ?case by simp
next
  case (Cons c cs)
  have "set (dedup_loop cs (insert (time c) seen) [c]) \<subseteq> insert c (set cs)"
    using Cons [of "insert (time c) seen"] dedup_loop_acc [of cs "insert (time c) seen" "[c]"] by auto
  moreover have "set (dedup_loop cs seen []) \<subseteq> insert c (set cs)"
    using Cons [of seen] by auto
  ultimately show ?case by simp
qed

lemma dedup_loop_distinct:
  "distinct (map time u) \<Longrightarrow> time ` set u \<subseteq> seen \<Longrightarrow> distinct (map time (dedup_loop cs seen u))"
proof (induction cs arbitrary: seen u)
  case Nil
  then show ?case by simp
next
  case (Cons c cs)
  show ?case
  proof (cases "time c \<in> seen")
    case True
    then show ?thesis using Cons by simp
  next
    case False
    have d: "distinct (map time (u @ [c]))" using False Cons.prems by auto
    have s: "time ` set (u @ [c]) \<subseteq> insert (time c) seen" using Cons.prems by auto
    show ?thesis using False Cons.IH [OF d s] by simp
  qed
qed

lemma dedup_loop_id:
  "distinct (map time cs) \<Longrightarrow> time ` set cs \<inter> seen = {} \<Longrightarrow> dedup_loop cs seen u = u @ cs"
  by (induction cs arbitrary: seen u) auto

lemma deduplicateCandles_distinct: "distinct (map time (deduplicateCandles cs))"
  by (simp add: deduplicateCandles_def dedup_loop_distinct)

lemma deduplicateCandles_subset: "set (deduplicateCandles cs) \<subseteq> set cs"
  by (simp add: deduplicateCandles_def dedup_loop_set)

lemma deduplicateCandles_id: "distinct (map time cs) \<Longrightarrow> deduplicateCandles cs = cs"
  by (simp add: deduplicateCandles_def dedup_loop_id)

lemma set_sort_insert: "set (sort_insert a bs) = insert a (set bs)"
  by (induction bs) auto

lemma set_sortCandles: "set (sortCandles cs) = set cs"
  by (induction cs) (auto simp: set_sort_insert)

lemma distinct_time_sort_insert:
  "distinct (map time (sort_insert a bs)) = (time a \<notin> time ` set bs \<and> distinct (map time bs))"
  by (induction bs) (auto simp: set_sort_insert)

lemma distinct_time_sortCandles: "distinct (map time (sortCandles cs)) = distinct (map time cs)"
  by (induction cs) (auto simp: distinct_time_sort_insert set_sortCandles)

lemma cleanChartData_distinct: "distinct (map time (cleanChartData cs))"
  by (simp add: cleanChartData_def distinct_time_sortCandles deduplicateCandles_distinct)

lemma positive_check: "(\<not> isNaN a \<and> js_gt a (Fin 0)) = (\<not> nan_or_nonpositive a)"
  by (cases a) (auto simp: isNaN_def js_gt_def nan_or_nonpositive_def)

lemma volume_check: "(\<not> isNaN a \<and> js_ge a (Fin 0)) = (\<not> nan_or_negative a)"
  by (cases a) (auto simp: isNaN_def js_ge_def nan_or_negative_def)

lemma isValid_iff: "isValid c = (\<not> nan_or_nonpositive (open_c c) \<and> \<not> nan_or_nonpositive (high c) \<and>
   \<not> nan_or_nonpositive (low c) \<and> \<not> nan_or_nonpositive (close c) \<and> \<not> nan_or_negative (volume c))"
  unfolding isValid_def using positive_check volume_check by blast

lemma keepCandle_isValid: "keepCandle c \<Longrightarrow> isValid c"
  by (auto simp: keepCandle_def split: if_splits)

lemma js_lt_le: "a \<noteq> NaN \<Longrightarrow> b \<noteq> NaN \<Longrightarrow> \<not> js_lt b a \<Longrightarrow> js_le a b"
  by (simp add: js_le_def js_ge_def)

lemma keepCandle_ohlc: "keepCandle c \<Longrightarrow> ohlc_ordered c"
  unfolding keepCandle_def isValid_def ohlc_ordered_def js_le_def js_ge_def js_gt_def isNaN_def
  by (auto split: if_splits)

lemma cleanChartData_subset: "set (cleanChartData cs) \<subseteq> set (validateCandles cs)"
  using deduplicateCandles_subset [of "validateCandles cs"]
  by (auto simp: cleanChartData_def set_sortCandles)

lemma cleanChartData_member: "c \<in> set (cleanChartData cs) \<Longrightarrow> keepCandle c"
  using cleanChartData_subset [of cs] by (auto simp: validateCandles_def)

lemma cleanChartData_drop:
  assumes "\<not> keepCandle b"
  shows "cleanChartData (xs @ b # ys) = cleanChartData (xs @ ys)"
proof -
  have v: "validateCandles (xs @ b # ys) = validateCandles (xs @ ys)"
    using assms by (simp add: validateCandles_def)
  show ?thesis
  proof (cases "xs @ ys = []")
    case True
    then show ?thesis using assms
      by (simp add: cleanChartData_def validateCandles_def deduplicateCandles_def)
  next
    case False
    have "cleanChartData (xs @ b # ys) = sortCandles (deduplicateCandles (validateCandles (xs @ b # ys)))"
      by (simp add: cleanChartData_def)
    moreover have "cleanChartData (xs @ ys) = sortCandles (deduplicateCandles (validateCandles (xs @ ys)))"
      using False by (simp only: cleanChartData_def if_False)
    ultimately show ?thesis using v by simp
  qed
qed

lemma sortCompare_le: "time a \<noteq> NaN \<Longrightarrow> time b \<noteq> NaN \<Longrightarrow>
   (\<not> js_gt (sortCompare a b) (Fin 0)) = js_le (time a) (time b)"
  by (cases "time a"; cases "time b")
     (auto simp: sortCompare_def compareTime_def js_gt_def js_le_def js_ge_def isNaN_def Let_def)

lemma js_le_trans: "js_le a b \<Longrightarrow> js_le b c \<Longrightarrow> js_le a c"
  by (cases a; cases b; cases c) (auto simp: js_le_def js_ge_def)

lemma js_le_total: "a \<noteq> NaN \<Longrightarrow> b \<noteq> NaN \<Longrightarrow> js_le a b \<or> js_le b a"
  by (cases a; cases b) (auto simp: js_le_def js_ge_def)

lemma js_le_neq_lt: "js_le a b \<Longrightarrow> a \<noteq> b \<Longrightarrow> js_lt a b"
  by (cases a; cases b) (auto simp: js_le_def js_ge_def)

lemma sorted_sort_insert:
  assumes "time a \<noteq> NaN" "\<forall>b\<in>set bs. time b \<noteq> NaN" "sorted_wrt time_le bs"
  shows "sorted_wrt time_le (sort_insert a bs)"
  using assms
proof (induction bs)
  case Nil
  then show ?case by simp
next
  case (Cons b bs)
  show ?case
  proof (cases "js_gt (sortCompare a b) (Fin 0)")
    case True
    have ba: "time_le b a"
      using True sortCompare_le [of a b] js_le_total [of "time a" "time b"] Cons.prems
      by (auto simp: time_le_def)
    have "sorted_wrt time_le (sort_insert a bs)" using Cons by simp
    then show ?thesis using True ba Cons.prems by (auto simp: set_sort_insert)
  next
    case False
    then have ab: "time_le a b" using sortCompare_le [of a b] Cons.prems by (simp add: time_le_def)
    have "\<forall>c\<in>set bs. time_le a c"
    proof
      fix c assume "c \<in> set bs"
      then have "time_le b c" using Cons.prems(3) by simp
      then show "time_le a c" using ab js_le_trans unfolding time_le_def by blast
    qed
    then show ?thesis using False ab Cons.prems by simp
  qed
qed

lemma sorted_sortCandles:
  "\<forall>c\<in>set cs. time c \<noteq> NaN \<Longrightarrow> sorted_wrt time_le (sortCandles cs)"
  by (induction cs) (auto simp: sorted_sort_insert set_sortCandles)

lemma sorted_distinct_strict:
  "sorted_wrt time_le cs \<Longrightarrow> distinct (map time cs) \<Longrightarrow> strictly_increasing (map time cs)"
  unfolding strictly_increasing_def
  by (induction cs) (auto simp: time_le_def intro: js_le_neq_lt)

lemma cleanChartData_increasing:
  assumes "\<forall>c\<in>set cs. keepCandle c \<longrightarrow> \<not> isNaN (time c)"
  shows "strictly_increasing (map time (cleanChartData cs))"
proof (cases "cs = []")
  case True
  then show ?thesis by (simp add: cleanChartData_def strictly_increasing_def)
next
  case False
  let ?d = "deduplicateCandles (validateCandles cs)"
  have "\<forall>c\<in>set ?d. time c \<noteq> NaN"
    using assms deduplicateCandles_subset [of "validateCandles cs"]
    by (auto simp: validateCandles_def isNaN_def)
  then have "sorted_wrt time_le (sortCandles ?d)" by (rule sorted_sortCandles)
  moreover have "distinct (map time (sortCandles ?d))"
    by (simp add: distinct_time_sortCandles deduplicateCandles_distinct)
  ultimately show ?thesis using False by (simp add: cleanChartData_def sorted_distinct_strict)
qed

text \<open>
  C2, as the code has it. For every input list the output of \<open>cleanChartData\<close> has
  no two elements with the same time, and every element has
  \<open>low \<le> open \<le> high\<close>, \<open>low \<le> close \<le> high\<close> and \<open>low \<le> high\<close>. Its times are
  strictly increasing when no record that passes the validation has the time NaN: the
  time of a record is not validated, and a record with an unreadable timestamp and good
  prices is kept.
\<close>

theorem cleanChartData_series:
  "distinct (map time (cleanChartData cs)) \<and>
   (\<forall>c\<in>set (cleanChartData cs). ohlc_ordered c) \<and>
   ((\<forall>c\<in>set cs. keepCandle c \<longrightarrow> \<not> isNaN (time c)) \<longrightarrow>
      strictly_increasing (map time (cleanChartData cs)))"
  using cleanChartData_distinct [of cs] cleanChartData_member [of _ cs] keepCandle_ohlc
    cleanChartData_increasing [of cs]
  by blast

theorem cleanChartData_series_witness:
  "keepCandle (flat_candle (Fin 5) (Fin 1)) \<and> \<not> isNaN (time (flat_candle (Fin 5) (Fin 1))) \<and>
   keepCandle (flat_candle (Fin 3) (Fin 2)) \<and> \<not> isNaN (time (flat_candle (Fin 3) (Fin 2))) \<and>
   cleanChartData [flat_candle (Fin 5) (Fin 1), flat_candle (Fin 3) (Fin 2)] =
     [flat_candle (Fin 3) (Fin 2), flat_candle (Fin 5) (Fin 1)] \<and>
   strictly_increasing
     (map time (cleanChartData [flat_candle (Fin 5) (Fin 1), flat_candle (Fin 3) (Fin 2)])) \<and>
   ohlc_ordered (flat_candle (Fin 3) (Fin 2))"
proof -
  let ?cs = "[flat_candle (Fin 5) (Fin 1), flat_candle (Fin 3) (Fin 2)]"
  have h: "\<forall>c\<in>set ?cs. keepCandle c \<longrightarrow> \<not> isNaN (time c)"
    by (simp add: flat_candle_def isNaN_def)
  have k: "keepCandle (flat_candle (Fin 5) (Fin 1))" "keepCandle (flat_candle (Fin 3) (Fin 2))"
    by (simp_all add: flat_candle_def keepCandle_def isValid_def isNaN_def js_gt_def js_ge_def)
  have e: "cleanChartData ?cs = [flat_candle (Fin 3) (Fin 2), flat_candle (Fin 5) (Fin 1)]"
    by (simp add: cleanChartData_def validateCandles_def keepCandle_def isValid_def js_ge_def
        deduplicateCandles_def sortCompare_def compareTime_def isNaN_def js_gt_def flat_candle_def)
  have s: "strictly_increasing (map time (cleanChartData ?cs))"
    using cleanChartData_series [of ?cs] h by blast
  have o: "ohlc_ordered (flat_candle (Fin 3) (Fin 2))"
    using cleanChartData_series [of ?cs] e by simp
  have n: "\<not> isNaN (time (flat_candle (Fin 5) (Fin 1)))" "\<not> isNaN (time (flat_candle (Fin 3) (Fin 2)))"
    by (simp_all add: flat_candle_def isNaN_def)
  show ?thesis using k n e s o by simp
qed

text \<open>
  The claim as the specification states it fails: of two records with good prices, the
  first with the time NaN (an unreadable timestamp) and the second at time 5, both are
  kept, and in neither order are their times strictly increasing, since NaN is less than
  nothing and nothing is less than NaN.
\<close>

theorem cleanChartData_nan_time_counterexample:
  "\<not> strictly_increasing
       (map time (cleanChartData [flat_candle NaN (Fin 1), flat_candle (Fin 5) (Fin 1)])) \<and>
   \<not> strictly_increasing
       (rev (map time (cleanChartData [flat_candle NaN (Fin 1), flat_candle (Fin 5) (Fin 1)])))"
  by (simp add: cleanChartData_def validateCandles_def keepCandle_def isValid_def isNaN_def
      js_gt_def js_ge_def deduplicateCandles_def sortCompare_def compareTime_def flat_candle_def
      strictly_increasing_def)

text \<open>
  C8. The claim: every record with a non-finite or non-positive open, high, low or
  close, or a negative volume, is dropped. The filter is written to remove the candles
  whose numbers are not valid, and tests each price with \<^verbatim>\<open>!isNaN(x) && x > 0\<close>: NaN,
  zero, the negative numbers and minus infinity fail the test, plus infinity passes it. A
  record whose four prices are plus infinity (the number that the JSON text 1e999 reads
  as) is not finite, and the normalizer returns it.
\<close>

theorem infinite_price_not_dropped:
  "spec_rejects (flat_candle (Fin 5) PosInf) \<and>
   cleanChartData [flat_candle (Fin 5) PosInf] = [flat_candle (Fin 5) PosInf]"
  by (simp add: cleanChartData_def validateCandles_def keepCandle_def isValid_def isNaN_def
      js_gt_def js_ge_def deduplicateCandles_def flat_candle_def spec_rejects_def non_finite_def)

text \<open>
  What the test does reject: a record in which the open, the high, the low or the close
  is NaN or not greater than zero (minus infinity included), or the volume is NaN or less
  than zero, is in the output of the normalizer for no input list, and the output is the
  one the list without that record gives.
\<close>

theorem invalid_candle_dropped:
  "number_check_fails c \<longrightarrow>
     c \<notin> set (cleanChartData cs) \<and>
     cleanChartData (xs @ c # ys) = cleanChartData (xs @ ys)"
proof
  assume f: "number_check_fails c"
  then have "\<not> isValid c" by (simp add: isValid_iff number_check_fails_def)
  then have k: "\<not> keepCandle c" using keepCandle_isValid by blast
  show "c \<notin> set (cleanChartData cs) \<and> cleanChartData (xs @ c # ys) = cleanChartData (xs @ ys)"
    using k cleanChartData_member [of c cs] cleanChartData_drop [of c xs ys] by blast
qed

theorem invalid_candle_dropped_witness:
  "number_check_fails (flat_candle (Fin 7) NaN) \<and>
   flat_candle (Fin 7) NaN \<notin> set (cleanChartData [flat_candle (Fin 5) (Fin 1), flat_candle (Fin 7) NaN]) \<and>
   cleanChartData ([flat_candle (Fin 5) (Fin 1)] @ flat_candle (Fin 7) NaN # []) =
     [flat_candle (Fin 5) (Fin 1)]"
proof -
  have f: "number_check_fails (flat_candle (Fin 7) NaN)"
    by (simp add: number_check_fails_def nan_or_nonpositive_def flat_candle_def)
  have k: "keepCandle (flat_candle (Fin 5) (Fin 1))"
    by (simp add: flat_candle_def keepCandle_def isValid_def isNaN_def js_gt_def js_ge_def)
  have e: "cleanChartData ([flat_candle (Fin 5) (Fin 1)] @ []) = [flat_candle (Fin 5) (Fin 1)]"
    by (simp add: cleanChartData_def validateCandles_def k deduplicateCandles_def)
  have d: "flat_candle (Fin 7) NaN \<noteq> flat_candle (Fin 5) (Fin 1)"
    by (simp add: flat_candle_def)
  show ?thesis
    using f e d
      invalid_candle_dropped [of "flat_candle (Fin 7) NaN"
        "[flat_candle (Fin 5) (Fin 1), flat_candle (Fin 7) NaN]" "[flat_candle (Fin 5) (Fin 1)]" "[]"]
    by simp
qed

section \<open>Properties of the sort engines and idempotence\<close>

lemma number_trichotomy: "v \<noteq> NaN \<Longrightarrow> js_lt v (Fin 0) \<or> v = Fin 0 \<or> js_gt v (Fin 0)"
  by (cases v) (auto simp: js_gt_def)

lemma number_exclusive:
  "\<not> (js_lt v (Fin 0) \<and> v = Fin 0)" "\<not> (js_lt v (Fin 0) \<and> js_gt v (Fin 0))"
  "\<not> (v = Fin 0 \<and> js_gt v (Fin 0))"
  by (cases v; auto simp: js_gt_def)+

lemma consistentD:
  assumes "consistent_comparator f S" "a \<in> S" "b \<in> S" "c \<in> S"
  shows "f a b \<noteq> NaN" "eqC f a a" "eqC f a b \<Longrightarrow> eqC f b a"
    "eqC f a b \<Longrightarrow> eqC f b c \<Longrightarrow> eqC f a c"
    "ltC f a b \<Longrightarrow> ltC f b c \<Longrightarrow> ltC f a c"
    "gtC f a b \<Longrightarrow> gtC f b c \<Longrightarrow> gtC f a c"
  using assms unfolding consistent_comparator_def by blast+

lemma C_cases:
  assumes "consistent_comparator f S" "a \<in> S" "b \<in> S"
  shows "ltC f a b \<or> eqC f a b \<or> gtC f a b"
  using number_trichotomy [OF consistentD(1) [OF assms assms(2)]]
  by (simp add: ltC_def eqC_def gtC_def)

lemma C_exclusive:
  "\<not> (ltC f a b \<and> eqC f a b)" "\<not> (ltC f a b \<and> gtC f a b)" "\<not> (eqC f a b \<and> gtC f a b)"
  using number_exclusive [of "f a b"] by (simp_all add: ltC_def eqC_def gtC_def)

lemma ltC_not_sym:
  assumes c: "consistent_comparator f S" and a: "a \<in> S" and b: "b \<in> S"
    and l: "ltC f a b"
  shows "\<not> ltC f b a"
proof
  assume "ltC f b a"
  then have "ltC f a a" using consistentD(5) [OF c a b a] l by blast
  moreover have "eqC f a a" by (rule consistentD(2) [OF c a a a])
  ultimately show False using C_exclusive(1) by blast
qed

lemma gtC_not_sym:
  assumes c: "consistent_comparator f S" and a: "a \<in> S" and b: "b \<in> S"
    and l: "gtC f a b"
  shows "\<not> gtC f b a"
proof
  assume "gtC f b a"
  then have "gtC f a a" using consistentD(6) [OF c a b a] l by blast
  moreover have "eqC f a a" by (rule consistentD(2) [OF c a a a])
  ultimately show False using C_exclusive(3) by blast
qed

lemma ltC_gtC:
  assumes c: "consistent_comparator f S" and a: "a \<in> S" and b: "b \<in> S"
    and l: "ltC f a b"
  shows "gtC f b a"
proof -
  have "\<not> ltC f b a" by (rule ltC_not_sym [OF c a b l])
  moreover have "\<not> eqC f b a"
  proof
    assume "eqC f b a"
    then have "eqC f a b" by (rule consistentD(3) [OF c b a a])
    then show False using l C_exclusive(1) by blast
  qed
  ultimately show ?thesis using C_cases [OF c b a] by blast
qed

lemma gtC_ltC:
  assumes c: "consistent_comparator f S" and a: "a \<in> S" and b: "b \<in> S"
    and l: "gtC f a b"
  shows "ltC f b a"
proof -
  have "\<not> gtC f b a" by (rule gtC_not_sym [OF c a b l])
  moreover have "\<not> eqC f b a"
  proof
    assume "eqC f b a"
    then have "eqC f a b" by (rule consistentD(3) [OF c b a a])
    then show False using l C_exclusive(3) by blast
  qed
  ultimately show ?thesis using C_cases [OF c b a] by blast
qed

lemma not_after_trans:
  assumes c: "consistent_comparator f S" and a: "a \<in> S" and b: "b \<in> S" and d: "d \<in> S"
    and ab: "\<not> ltC f b a" and bd: "\<not> ltC f d b"
  shows "\<not> ltC f d a"
proof
  assume da: "ltC f d a"
  show False
  proof (cases "gtC f b a")
    case True
    then have "ltC f a b" by (rule gtC_ltC [OF c b a])
    then have "ltC f d b" using consistentD(5) [OF c d a b] da by blast
    then show False using bd by blast
  next
    case False
    then have ba: "eqC f b a" using C_cases [OF c b a] ab by blast
    show False
    proof (cases "gtC f d b")
      case True
      then have "ltC f b d" by (rule gtC_ltC [OF c d b])
      then have "ltC f b a" using consistentD(5) [OF c b d a] da by blast
      then show False using ab by blast
    next
      case False
      then have "eqC f d b" using C_cases [OF c d b] bd by blast
      then have "eqC f d a" using consistentD(4) [OF c d b a] ba by blast
      then show False using da C_exclusive(1) by blast
    qed
  qed
qed

lemma mset_insert_sorted: "mset (insert_sorted f a bs) = add_mset a (mset bs)"
  by (induction bs) auto

lemma mset_insertion_sort: "mset (insertion_sort f cs) = mset cs"
  by (induction cs) (auto simp: mset_insert_sorted)

lemma set_insert_sorted: "set (insert_sorted f a bs) = insert a (set bs)"
  by (induction bs) auto

lemma set_insertion_sort: "set (insertion_sort f cs) = set cs"
  by (induction cs) (auto simp: set_insert_sorted)

lemma sorted_insert_sorted:
  assumes c: "consistent_comparator (SortCompare f) S" and a: "a \<in> S"
  shows "set bs \<subseteq> S \<Longrightarrow> sorted_wrt (\<lambda>x y. \<not> ltC (SortCompare f) y x) bs \<Longrightarrow>
    sorted_wrt (\<lambda>x y. \<not> ltC (SortCompare f) y x) (insert_sorted f a bs)"
proof (induction bs)
  case Nil
  show ?case by simp
next
  case (Cons b bs)
  have b: "b \<in> S" and bs: "set bs \<subseteq> S" using Cons.prems(1) by auto
  have sb: "sorted_wrt (\<lambda>x y. \<not> ltC (SortCompare f) y x) bs"
    and hb: "\<forall>z\<in>set bs. \<not> ltC (SortCompare f) z b" using Cons.prems(2) by auto
  show ?case
  proof (cases "gtC (SortCompare f) a b")
    case True
    then have "ltC (SortCompare f) b a" by (rule gtC_ltC [OF c a b])
    then have "\<not> ltC (SortCompare f) a b" by (rule ltC_not_sym [OF c b a])
    then show ?thesis using True hb Cons.IH [OF bs sb] by (simp add: set_insert_sorted)
  next
    case False
    have ab: "\<not> ltC (SortCompare f) b a"
    proof
      assume "ltC (SortCompare f) b a"
      then have "gtC (SortCompare f) a b" by (rule ltC_gtC [OF c b a])
      then show False using False by blast
    qed
    have "\<forall>z\<in>set bs. \<not> ltC (SortCompare f) z a"
    proof
      fix z assume z: "z \<in> set bs"
      then have zS: "z \<in> S" using bs by blast
      have "\<not> ltC (SortCompare f) z b" using hb z by blast
      then show "\<not> ltC (SortCompare f) z a" using not_after_trans [OF c a b zS ab] by blast
    qed
    then show ?thesis using False ab Cons.prems(2) by simp
  qed
qed

lemma sorted_insertion_sort:
  assumes c: "consistent_comparator (SortCompare f) S"
  shows "set cs \<subseteq> S \<Longrightarrow> sorted_wrt (\<lambda>x y. \<not> ltC (SortCompare f) y x) (insertion_sort f cs)"
proof (induction cs)
  case Nil
  show ?case by simp
next
  case (Cons a cs)
  have "set (insertion_sort f cs) \<subseteq> S" using Cons.prems by (simp add: set_insertion_sort)
  moreover have "sorted_wrt (\<lambda>x y. \<not> ltC (SortCompare f) y x) (insertion_sort f cs)"
    using Cons by simp
  moreover have "a \<in> S" using Cons.prems by simp
  ultimately show ?case using sorted_insert_sorted [OF c] by simp
qed

lemma insertion_sort_conforming: "conforming insertion_sort"
  unfolding conforming_def using mset_insertion_sort sorted_insertion_sort by blast

lemma mset_merge_runs: "mset (merge_runs f xs ys) = mset xs + mset ys"
  by (induction f xs ys rule: merge_runs.induct) auto

lemma set_merge_runs: "set (merge_runs f xs ys) = set xs \<union> set ys"
  by (induction f xs ys rule: merge_runs.induct) auto

lemma sorted_merge_runs:
  "consistent_comparator (SortCompare f) S \<Longrightarrow> set xs \<subseteq> S \<Longrightarrow> set ys \<subseteq> S \<Longrightarrow>
    sorted_wrt (\<lambda>x y. \<not> ltC (SortCompare f) y x) xs \<Longrightarrow>
    sorted_wrt (\<lambda>x y. \<not> ltC (SortCompare f) y x) ys \<Longrightarrow>
    sorted_wrt (\<lambda>x y. \<not> ltC (SortCompare f) y x) (merge_runs f xs ys)"
proof (induction f xs ys rule: merge_runs.induct)
  case (1 f ys)
  then show ?case by simp
next
  case (2 f v va)
  then show ?case by simp
next
  case (3 f x xs y ys)
  note c3 = "3.prems"(1)
  have x: "x \<in> S" and y: "y \<in> S" and xs: "set xs \<subseteq> S" and ys: "set ys \<subseteq> S"
    using "3.prems" by auto
  have hx: "\<forall>z\<in>set xs. \<not> ltC (SortCompare f) z x" and sx: "sorted_wrt (\<lambda>x y. \<not> ltC (SortCompare f) y x) xs"
    and hy: "\<forall>z\<in>set ys. \<not> ltC (SortCompare f) z y" and sy: "sorted_wrt (\<lambda>x y. \<not> ltC (SortCompare f) y x) ys"
    using "3.prems" by auto
  show ?case
  proof (cases "ltC (SortCompare f) y x")
    case True
    have yx: "\<not> ltC (SortCompare f) x y" by (rule ltC_not_sym [OF c3 y x True])
    have "\<forall>z\<in>set xs. \<not> ltC (SortCompare f) z y"
    proof
      fix z assume z: "z \<in> set xs"
      then have zS: "z \<in> S" using xs by blast
      have "\<not> ltC (SortCompare f) z x" using hx z by blast
      then show "\<not> ltC (SortCompare f) z y" using not_after_trans [OF c3 y x zS yx] by blast
    qed
    moreover have "sorted_wrt (\<lambda>x y. \<not> ltC (SortCompare f) y x) (merge_runs f (x # xs) ys)"
      using "3.IH"(1) [OF True c3] "3.prems" sy ys by simp
    ultimately show ?thesis using True yx hy by (auto simp: set_merge_runs)
  next
    case False
    have "\<forall>z\<in>set ys. \<not> ltC (SortCompare f) z x"
    proof
      fix z assume z: "z \<in> set ys"
      then have zS: "z \<in> S" using ys by blast
      have "\<not> ltC (SortCompare f) z y" using hy z by blast
      then show "\<not> ltC (SortCompare f) z x" using not_after_trans [OF c3 x y zS False] by blast
    qed
    moreover have "sorted_wrt (\<lambda>x y. \<not> ltC (SortCompare f) y x) (merge_runs f xs (y # ys))"
      using "3.IH"(2) [OF False c3] "3.prems" sx xs by simp
    ultimately show ?thesis using False hx by (auto simp: set_merge_runs)
  qed
qed

lemma mset_merge_pairs: "mset (concat (merge_pairs f xss)) = mset (concat xss)"
  by (induction f xss rule: merge_pairs.induct) (auto simp: mset_merge_runs)

lemma mset_merge_passes: "mset (merge_passes f xss) = mset (concat xss)"
proof (induction f xss rule: merge_passes.induct)
  case (1 f)
  show ?case by simp
next
  case (2 f xs)
  show ?case by simp
next
  case (3 f xs ys rest)
  then show ?case using mset_merge_pairs [of f "xs # ys # rest"] by simp
qed

lemma mset_merge_sort: "mset (merge_sort f items) = mset items"
proof -
  have "concat (map (\<lambda>x. [x]) items) = items" by (induction items) auto
  then show ?thesis by (simp add: merge_sort_def mset_merge_passes)
qed

lemma runs_ok_merge_pairs:
  "consistent_comparator (SortCompare f) S \<Longrightarrow> runs_ok f S xss \<Longrightarrow> runs_ok f S (merge_pairs f xss)"
proof (induction f xss rule: merge_pairs.induct)
  case (1 f)
  then show ?case by (simp add: runs_ok_def)
next
  case (2 f xs)
  then show ?case by (simp add: runs_ok_def)
next
  case (3 f xs ys rest)
  have "runs_ok f S (merge_pairs f rest)" using 3 by (simp add: runs_ok_def)
  moreover have "sorted_wrt (\<lambda>x y. \<not> ltC (SortCompare f) y x) (merge_runs f xs ys)"
    using sorted_merge_runs [OF "3.prems"(1), of xs ys] "3.prems"(2) by (simp add: runs_ok_def)
  moreover have "set (merge_runs f xs ys) \<subseteq> S"
    using "3.prems"(2) by (simp add: runs_ok_def set_merge_runs)
  ultimately show ?case by (simp add: runs_ok_def)
qed

lemma sorted_merge_passes:
  "consistent_comparator (SortCompare f) S \<Longrightarrow> runs_ok f S xss \<Longrightarrow>
   sorted_wrt (\<lambda>x y. \<not> ltC (SortCompare f) y x) (merge_passes f xss)"
proof (induction f xss rule: merge_passes.induct)
  case (1 f)
  show ?case by simp
next
  case (2 f xs)
  then show ?case by (simp add: runs_ok_def)
next
  case (3 f xs ys rest)
  have "runs_ok f S (merge_pairs f (xs # ys # rest))"
    by (rule runs_ok_merge_pairs [OF "3.prems"])
  then show ?case using "3.IH" [OF "3.prems"(1)] by simp
qed

lemma sorted_merge_sort:
  assumes "consistent_comparator (SortCompare f) (set items)"
  shows "sorted_wrt (\<lambda>x y. \<not> ltC (SortCompare f) y x) (merge_sort f items)"
proof -
  have "runs_ok f (set items) (map (\<lambda>x. [x]) items)"
    by (simp add: runs_ok_def list_all_iff)
  then show ?thesis unfolding merge_sort_def by (rule sorted_merge_passes [OF assms])
qed

lemma merge_sort_conforming: "conforming merge_sort"
  unfolding conforming_def using mset_merge_sort sorted_merge_sort by blast

lemma SortCompare_time: "SortCompare compareTime a b = sortCompare a b"
  by (simp add: SortCompare_def sortCompare_def)

lemma insert_sorted_time: "insert_sorted compareTime a bs = sort_insert a bs"
  by (induction bs) (auto simp: gtC_def SortCompare_time)

lemma insertion_sort_time: "insertion_sort compareTime cs = sortCandles cs"
  by (induction cs) (auto simp: insert_sorted_time)

lemma cleanChartData_instance: "cleanChartData cs = cleanChartData_on insertion_sort cs"
  by (simp add: cleanChartData_def cleanChartData_on_def sortCandles_on_def insertion_sort_time)

lemma time_consistent:
  assumes "\<forall>c\<in>S. time c \<noteq> NaN"
  shows "consistent_comparator (SortCompare compareTime) S"
  unfolding consistent_comparator_def
proof (intro ballI)
  fix a b c assume "a \<in> S" "b \<in> S" "c \<in> S"
  then have n: "time a \<noteq> NaN" "time b \<noteq> NaN" "time c \<noteq> NaN" using assms by auto
  show "SortCompare compareTime a b \<noteq> NaN \<and>
        eqC (SortCompare compareTime) a a \<and>
        (eqC (SortCompare compareTime) a b \<longrightarrow> eqC (SortCompare compareTime) b a) \<and>
        (eqC (SortCompare compareTime) a b \<and> eqC (SortCompare compareTime) b c \<longrightarrow>
           eqC (SortCompare compareTime) a c) \<and>
        (ltC (SortCompare compareTime) a b \<and> ltC (SortCompare compareTime) b c \<longrightarrow>
           ltC (SortCompare compareTime) a c) \<and>
        (gtC (SortCompare compareTime) a b \<and> gtC (SortCompare compareTime) b c \<longrightarrow>
           gtC (SortCompare compareTime) a c)"
    using n
    by (cases "time a"; cases "time b"; cases "time c")
       (simp_all add: SortCompare_def compareTime_def eqC_def ltC_def gtC_def js_gt_def isNaN_def)
qed

lemma not_before_time:
  "time a \<noteq> NaN \<Longrightarrow> time b \<noteq> NaN \<Longrightarrow> (\<not> ltC (SortCompare compareTime) b a) = time_le a b"
  by (cases "time a"; cases "time b")
     (auto simp: SortCompare_def compareTime_def ltC_def time_le_def js_le_def js_ge_def isNaN_def)

lemma conformingD:
  assumes "conforming srt"
  shows "mset (srt f items) = mset items"
    "consistent_comparator (SortCompare f) (set items) \<Longrightarrow>
       sorted_wrt (\<lambda>x y. \<not> ltC (SortCompare f) y x) (srt f items)"
  using assms unfolding conforming_def by blast+

lemma conforming_set: "conforming srt \<Longrightarrow> set (srt f items) = set items"
  using conformingD(1) [of srt f items] by (metis set_mset_mset)

lemma conforming_distinct_time:
  assumes "conforming srt"
  shows "distinct (map time (srt f items)) = distinct (map time items)"
proof -
  have "mset (map time (srt f items)) = mset (map time items)"
    using conformingD(1) [OF assms, of f items] by simp
  then show ?thesis by (rule mset_eq_imp_distinct_iff)
qed

lemma conforming_sorted_time:
  assumes c: "conforming srt" and n: "\<forall>c\<in>set items. time c \<noteq> NaN"
  shows "sorted_wrt time_le (srt compareTime items)"
proof -
  have "consistent_comparator (SortCompare compareTime) (set items)"
    by (rule time_consistent [OF n])
  then have s: "sorted_wrt (\<lambda>x y. \<not> ltC (SortCompare compareTime) y x) (srt compareTime items)"
    by (rule conformingD(2) [OF c])
  have m: "\<forall>c\<in>set (srt compareTime items). time c \<noteq> NaN"
    using n conforming_set [OF c] by simp
  show ?thesis
    by (rule sorted_wrt_mono_rel [OF _ s]) (use m not_before_time in blast)
qed

lemma strictly_sorted_unique:
  assumes asym: "\<And>a b. R a b \<Longrightarrow> \<not> R b a"
  shows "sorted_wrt R xs \<Longrightarrow> sorted_wrt R ys \<Longrightarrow> mset xs = mset ys \<Longrightarrow> xs = ys"
proof (induction xs arbitrary: ys)
  case Nil
  then show ?case by simp
next
  case (Cons x xs)
  then obtain y ys' where ys: "ys = y # ys'" by (cases ys) auto
  have xy: "x = y"
  proof (rule ccontr)
    assume ne: "x \<noteq> y"
    have "x \<in> set ys" using Cons.prems(3) by (metis list.set_intros(1) set_mset_mset)
    then have "x \<in> set ys'" using ne ys by simp
    then have 1: "R y x" using Cons.prems(2) ys by simp
    have "y \<in> set (x # xs)" using Cons.prems(3) ys by (metis list.set_intros(1) set_mset_mset)
    then have "y \<in> set xs" using ne by simp
    then have "R x y" using Cons.prems(1) by simp
    then show False using 1 asym by blast
  qed
  have "mset xs = mset ys'" using Cons.prems(3) ys xy by simp
  then have "xs = ys'" using Cons.IH [of ys'] Cons.prems(1,2) ys by simp
  then show ?case using xy ys by simp
qed

lemma js_lt_asym: "js_lt a b \<Longrightarrow> \<not> js_lt b a"
  by (cases a; cases b) auto

lemma cleanChartData_on_keep:
  assumes "conforming srt"
  shows "set (cleanChartData_on srt cs) \<subseteq> set (validateCandles cs)"
  using deduplicateCandles_subset [of "validateCandles cs"] conforming_set [OF assms]
  by (auto simp: cleanChartData_on_def sortCandles_on_def)

lemma cleanChartData_on_distinct:
  assumes "conforming srt"
  shows "distinct (map time (cleanChartData_on srt cs))"
  by (simp add: cleanChartData_on_def sortCandles_on_def conforming_distinct_time [OF assms]
      deduplicateCandles_distinct)

lemma cleanChartData_on_sorted:
  assumes c: "conforming srt" and n: "\<forall>c\<in>set cs. keepCandle c \<longrightarrow> \<not> isNaN (time c)"
  shows "sorted_wrt time_le (cleanChartData_on srt cs)"
proof (cases "cs = []")
  case True
  then show ?thesis by (simp add: cleanChartData_on_def)
next
  case False
  let ?d = "deduplicateCandles (validateCandles cs)"
  have "\<forall>c\<in>set ?d. time c \<noteq> NaN"
    using n deduplicateCandles_subset [of "validateCandles cs"]
    by (auto simp: validateCandles_def isNaN_def)
  then have "sorted_wrt time_le (srt compareTime ?d)" by (rule conforming_sorted_time [OF c])
  then show ?thesis using False by (simp add: cleanChartData_on_def sortCandles_on_def)
qed

text \<open>
  C9, as the code has it. On every engine that meets the contract of
  \<^verbatim>\<open>Array.prototype.sort\<close>, and for every input list in which no record that passes
  the validation has the time NaN, the normalizer is idempotent: cleaning the cleaned
  list gives the cleaned list. The cleaned list holds only candles the validation keeps,
  at pairwise distinct times in strictly increasing order, and such a list has one
  ordered permutation, itself.
\<close>

theorem cleanChartData_on_idempotent:
  "conforming srt \<longrightarrow> (\<forall>c\<in>set x. keepCandle c \<longrightarrow> \<not> isNaN (time c)) \<longrightarrow>
     cleanChartData_on srt (cleanChartData_on srt x) = cleanChartData_on srt x"
proof (intro impI)
  assume c: "conforming srt" and n: "\<forall>c\<in>set x. keepCandle c \<longrightarrow> \<not> isNaN (time c)"
  let ?y = "cleanChartData_on srt x"
  let ?R = "\<lambda>a b. js_lt (time a) (time b)"
  have k: "\<forall>c\<in>set ?y. keepCandle c"
    using cleanChartData_on_keep [OF c, of x] by (auto simp: validateCandles_def)
  have ny: "\<forall>c\<in>set ?y. time c \<noteq> NaN"
    using cleanChartData_on_keep [OF c, of x] n by (auto simp: validateCandles_def isNaN_def)
  have d: "distinct (map time ?y)" by (rule cleanChartData_on_distinct [OF c])
  have v: "validateCandles ?y = ?y" using k by (simp add: validateCandles_def)
  have u: "deduplicateCandles ?y = ?y" by (rule deduplicateCandles_id [OF d])
  have s1: "sorted_wrt ?R ?y"
    using sorted_distinct_strict [OF cleanChartData_on_sorted [OF c n] d]
    by (simp add: strictly_increasing_def sorted_wrt_map)
  have d2: "distinct (map time (srt compareTime ?y))"
    using d by (simp add: conforming_distinct_time [OF c])
  have s2: "sorted_wrt ?R (srt compareTime ?y)"
    using sorted_distinct_strict [OF conforming_sorted_time [OF c ny] d2]
    by (simp add: strictly_increasing_def sorted_wrt_map)
  have m: "mset (srt compareTime ?y) = mset ?y" by (rule conformingD(1) [OF c])
  have e: "srt compareTime ?y = ?y"
    by (rule strictly_sorted_unique [of ?R, OF js_lt_asym s2 s1 m])
  show "cleanChartData_on srt ?y = ?y"
    using v u e by (simp add: cleanChartData_on_def [of srt ?y] sortCandles_on_def)
qed

lemmas clean_eval = cleanChartData_on_def sortCandles_on_def validateCandles_def keepCandle_def
  isValid_def isNaN_def js_gt_def js_ge_def deduplicateCandles_def merge_sort_def ltC_def gtC_def
  SortCompare_def compareTime_def candle_at_def flat_candle_def

theorem cleanChartData_on_idempotent_witness:
  "conforming insertion_sort \<and>
   keepCandle (candle_at (Fin 5)) \<and> \<not> isNaN (time (candle_at (Fin 5))) \<and>
   keepCandle (candle_at (Fin 3)) \<and> \<not> isNaN (time (candle_at (Fin 3))) \<and>
   cleanChartData_on insertion_sort [candle_at (Fin 5), candle_at (Fin 3)] =
     [candle_at (Fin 3), candle_at (Fin 5)] \<and>
   cleanChartData_on insertion_sort
     (cleanChartData_on insertion_sort [candle_at (Fin 5), candle_at (Fin 3)]) =
     cleanChartData_on insertion_sort [candle_at (Fin 5), candle_at (Fin 3)]"
proof -
  let ?x = "[candle_at (Fin 5), candle_at (Fin 3)]"
  have k: "keepCandle (candle_at (Fin 5))" "keepCandle (candle_at (Fin 3))"
    by (simp_all add: clean_eval)
  have n: "\<not> isNaN (time (candle_at (Fin 5)))" "\<not> isNaN (time (candle_at (Fin 3)))"
    by (simp_all add: candle_at_def flat_candle_def isNaN_def)
  have h: "\<forall>c\<in>set ?x. keepCandle c \<longrightarrow> \<not> isNaN (time c)" using n by simp
  have e: "cleanChartData_on insertion_sort ?x = [candle_at (Fin 3), candle_at (Fin 5)]"
    by (simp add: clean_eval)
  have i: "cleanChartData_on insertion_sort (cleanChartData_on insertion_sort ?x) =
      cleanChartData_on insertion_sort ?x"
    using cleanChartData_on_idempotent [of insertion_sort ?x] insertion_sort_conforming h by blast
  show ?thesis using insertion_sort_conforming k n e i by simp
qed

text \<open>
  The claim as the specification states it fails when a kept record has the time NaN:
  the order that the sort leaves is then the engine's choice, and cleaning again can
  change it. On the merge sort engine, which meets the contract, the batch with the times
  1, 4, NaN, 2, 3 is cleaned to the times 1, 3, 4, NaN, 2, and cleaning that list gives
  1, 2, 3, 4, NaN.
\<close>

theorem merge_sort_not_idempotent_counterexample:
  "map time (cleanChartData_on merge_sort nan_batch) = [Fin 1, Fin 3, Fin 4, NaN, Fin 2] \<and>
   map time (cleanChartData_on merge_sort (cleanChartData_on merge_sort nan_batch)) =
     [Fin 1, Fin 2, Fin 3, Fin 4, NaN] \<and>
   cleanChartData_on merge_sort (cleanChartData_on merge_sort nan_batch) \<noteq>
     cleanChartData_on merge_sort nan_batch"
proof -
  have 1: "cleanChartData_on merge_sort nan_batch = map candle_at [Fin 1, Fin 3, Fin 4, NaN, Fin 2]"
    by (simp add: nan_batch_def clean_eval)
  have 2: "cleanChartData_on merge_sort (map candle_at [Fin 1, Fin 3, Fin 4, NaN, Fin 2]) =
     map candle_at [Fin 1, Fin 2, Fin 3, Fin 4, NaN]"
    by (simp add: clean_eval)
  show ?thesis unfolding 1 2 by (simp add: candle_at_def flat_candle_def)
qed

section \<open>Properties of the market-day helpers\<close>

lemma local_ist: "localMs tzo (istTime_of tzo now) = now + 19800000"
  by (simp add: localMs_def istTime_of_def)

lemma split_div:
  fixes m :: int
  assumes "0 < a" "0 < c"
  shows "m div a = (m div (a * c)) * c + (m mod (a * c)) div a"
proof -
  have 1: "m div (a * c) = (m div a) div c" using assms by (simp add: zdiv_zmult2_eq)
  have 2: "m mod (a * c) = a * ((m div a) mod c) + m mod a" using assms by (simp add: zmod_zmult2_eq)
  have 3: "(a * ((m div a) mod c) + m mod a) div a = (m div a) mod c" using assms by simp
  show ?thesis unfolding 1 2 3 by simp
qed

lemma hm_split: "(x mod 86400000) div 60000 = ((x mod 86400000) div 3600000) * 60 + (x mod 3600000) div 60000" for x :: int
proof -
  have "x mod 3600000 = (x mod 86400000) mod 3600000"
    by (simp add: mod_mod_cancel)
  then show ?thesis using split_div [of 60000 60 "x mod 86400000"] by simp
qed

lemma clock_cmp: "0 \<le> mn \<Longrightarrow> mn < 60 \<Longrightarrow> (h < 9 \<or> (h = 9 \<and> mn < 15)) = (h * 60 + mn < 555)" for h mn :: int
  by arith

lemma pre_open_iff:
  "(getHours tzo (istTime_of tzo now) < 9 \<or>
    (getHours tzo (istTime_of tzo now) = 9 \<and> getMinutes tzo (istTime_of tzo now) < 15))
   = (ist_minute_of_day now < 555)"
proof -
  let ?x = "now + 19800000"
  have m: "0 \<le> (?x mod 3600000) div 60000" "(?x mod 3600000) div 60000 < 60" by simp_all
  show ?thesis
    unfolding getHours_def getMinutes_def local_ist ist_minute_of_day_def hm_split [of ?x]
    by (rule clock_cmp [OF m])
qed

lemma back_date: "(x - k * 86400000) div 86400000 = x div 86400000 - k" for x :: int
  using div_mult_self1 [of 86400000 x "- k"] by simp

lemma back_weekday: "((x - k * 86400000) div 86400000 + 4) mod 7 = ((x div 86400000 + 4) mod 7 - k) mod 7" for x :: int
  unfolding back_date by (simp add: mod_diff_left_eq algebra_simps)

lemma ist_fields:
  "getDay tzo (istTime_of tzo now) = ist_weekday now"
  "localDate tzo (istTime_of tzo now) = ist_date now"
  by (simp_all add: getDay_def localDate_def local_ist ist_weekday_def ist_date_def)

lemma back_fields:
  "localDate tzo (setDateBack (istTime_of tzo now) k) = ist_date now - k"
  "getDay tzo (setDateBack (istTime_of tzo now) k) = (ist_weekday now - k) mod 7"
proof -
  have e: "localMs tzo (setDateBack (istTime_of tzo now) k) = (now + 19800000) - k * 86400000"
    using local_ist [of tzo now] by (simp add: localMs_def setDateBack_def)
  show "localDate tzo (setDateBack (istTime_of tzo now) k) = ist_date now - k"
    unfolding localDate_def e back_date ist_date_def by simp
  show "getDay tzo (setDateBack (istTime_of tzo now) k) = (ist_weekday now - k) mod 7"
    unfolding getDay_def e back_weekday ist_weekday_def ist_date_def by simp
qed

lemma getLastMarketDay_cases:
  "getLastMarketDay tzo now =
     (if ist_weekday now = 0 then setDateBack (istTime_of tzo now) 2
      else if ist_weekday now = 6 then setDateBack (istTime_of tzo now) 1
      else if ist_minute_of_day now < 555 then
        (if ist_weekday now = 1 then setDateBack (istTime_of tzo now) 3
         else setDateBack (istTime_of tzo now) 1)
      else istTime_of tzo now)"
proof -
  have "getLastMarketDay tzo now =
     (let istTime = istTime_of tzo now;
          dayOfWeek = getDay tzo istTime;
          hours = getHours tzo istTime;
          minutes = getMinutes tzo istTime
      in if dayOfWeek = 0 then setDateBack istTime 2
         else if dayOfWeek = 6 then setDateBack istTime 1
         else if hours < 9 \<or> (hours = 9 \<and> minutes < 15) then
           (if dayOfWeek = 1 then setDateBack istTime 3 else setDateBack istTime 1)
         else istTime)"
    by (simp add: getLastMarketDay_def istTime_of_def Let_def)
  then show ?thesis unfolding Let_def ist_fields pre_open_iff by simp
qed

text \<open>
  C7. At every instant of a Monday before 09:15 in India, \<open>getLastMarketDay\<close> returns
  the date three days back, a Friday; on a Saturday the day before and on a Sunday the day
  two days back, both Fridays; from Tuesday to Friday before 09:15, the day before. The
  date and the day of the week of the result are read as the source reads them, with the
  getters of the runtime, whatever its (fixed) zone.
\<close>

theorem getLastMarketDay_rollback:
  "(ist_weekday now = 1 \<and> ist_minute_of_day now < 555 \<longrightarrow>
      localDate tzo (getLastMarketDay tzo now) = ist_date now - 3 \<and>
      getDay tzo (getLastMarketDay tzo now) = 5) \<and>
   (ist_weekday now = 6 \<longrightarrow>
      localDate tzo (getLastMarketDay tzo now) = ist_date now - 1 \<and>
      getDay tzo (getLastMarketDay tzo now) = 5) \<and>
   (ist_weekday now = 0 \<longrightarrow>
      localDate tzo (getLastMarketDay tzo now) = ist_date now - 2 \<and>
      getDay tzo (getLastMarketDay tzo now) = 5) \<and>
   (2 \<le> ist_weekday now \<and> ist_weekday now \<le> 5 \<and> ist_minute_of_day now < 555 \<longrightarrow>
      localDate tzo (getLastMarketDay tzo now) = ist_date now - 1 \<and>
      getDay tzo (getLastMarketDay tzo now) = ist_weekday now - 1)"
  unfolding getLastMarketDay_cases by (simp add: back_fields)

theorem getLastMarketDay_rollback_witness:
  "ist_weekday 340200000 = 1 \<and> ist_minute_of_day 340200000 < 555 \<and>
   localDate 300 (getLastMarketDay 300 340200000) = ist_date 340200000 - 3 \<and>
   getDay 300 (getLastMarketDay 300 340200000) = 5 \<and>
   ist_weekday 196200000 = 6 \<and>
   localDate 0 (getLastMarketDay 0 196200000) = ist_date 196200000 - 1 \<and>
   getDay 0 (getLastMarketDay 0 196200000) = 5 \<and>
   ist_weekday 282600000 = 0 \<and>
   localDate (- 330) (getLastMarketDay (- 330) 282600000) = ist_date 282600000 - 2 \<and>
   getDay (- 330) (getLastMarketDay (- 330) 282600000) = 5 \<and>
   ist_weekday 441000000 = 2 \<and> ist_minute_of_day 441000000 < 555 \<and>
   localDate 0 (getLastMarketDay 0 441000000) = ist_date 441000000 - 1 \<and>
   getDay 0 (getLastMarketDay 0 441000000) = 1"
proof -
  have monday: "ist_weekday 340200000 = 1 \<and> ist_minute_of_day 340200000 < 555"
    by (simp add: ist_weekday_def ist_date_def ist_minute_of_day_def)
  have saturday: "ist_weekday 196200000 = 6"
    by (simp add: ist_weekday_def ist_date_def)
  have sunday: "ist_weekday 282600000 = 0"
    by (simp add: ist_weekday_def ist_date_def)
  have tuesday: "ist_weekday 441000000 = 2 \<and> ist_minute_of_day 441000000 < 555"
    by (simp add: ist_weekday_def ist_date_def ist_minute_of_day_def)
  show ?thesis
    using monday getLastMarketDay_rollback [of 340200000 300]
      saturday getLastMarketDay_rollback [of 196200000 0]
      sunday getLastMarketDay_rollback [of 282600000 "- 330"]
      tuesday getLastMarketDay_rollback [of 441000000 0]
    by simp
qed

section \<open>Properties of the fetcher\<close>

lemmas fetch_defs = fetch_run_def fetch_init_def after_start_def getCandleIntraday_start_def
  getCandleIntraday_resume_def resume_def register_controller_def getCacheKey_def setCachedData_def

lemma keep_flat: "keepCandle (flat_candle t (Fin (numeral n)))"
  by (simp add: flat_candle_def keepCandle_def isValid_def isNaN_def js_gt_def js_ge_def)

lemma clean_single: "keepCandle c \<Longrightarrow> cleanChartData [c] = [c]"
  by (simp add: cleanChartData_def validateCandles_def deduplicateCandles_def)

lemma getCachedData_requests: "requests (snd (getCachedData now st key)) = requests st"
  by (simp add: getCachedData_def Let_def split: option.split)

lemma getCachedData_cache:
  "key' \<noteq> key \<Longrightarrow> candleCache (snd (getCachedData now st key)) key' = candleCache st key'"
  by (simp add: getCachedData_def Let_def split: option.split)

lemma getCachedData_hit:
  "fst (getCachedData now st key) = Some d \<Longrightarrow>
   \<exists>e. candleCache st key = Some e \<and> data e = d \<and> now - timestamp e \<le> CACHE_TTL"
  by (auto simp: getCachedData_def Let_def split: option.splits if_splits)

lemma register_controller_requests: "requests (snd (register_controller st key)) = requests st"
  by (simp add: register_controller_def Let_def split: option.split)

lemma register_controller_cache: "candleCache (snd (register_controller st key)) = candleCache st"
  by (simp add: register_controller_def Let_def split: option.split)

lemma intraday_start_requests:
  "filter (\<lambda>r. endpoint r = CANDLES_HISTORY) (requests (snd (getCandleIntraday_start now st k i force n))) =
   filter (\<lambda>r. endpoint r = CANDLES_HISTORY) (requests st)"
  by (simp add: getCandleIntraday_start_def Let_def case_prod_beta getCachedData_requests
      register_controller_requests split: option.split)

lemma intraday_start_fn:
  "fst (getCandleIntraday_start now st k i force n) = Awaiting p \<Longrightarrow>
   p_fn p = In_getCandleIntraday \<and> p_cacheKey p = getCacheKey k TF_1D i"
  by (auto simp: getCandleIntraday_start_def Let_def case_prod_beta split: option.splits)

lemma intraday_start_cache:
  "key \<noteq> getCacheKey k TF_1D i \<Longrightarrow>
   candleCache (snd (getCandleIntraday_start now st k i force n)) key = candleCache st key"
  by (simp add: getCandleIntraday_start_def Let_def case_prod_beta register_controller_cache
      getCachedData_cache split: option.split)

lemma intraday_start_returned:
  "fst (getCandleIntraday_start now st k i force n) = Returned d \<Longrightarrow>
   \<not> force \<and> (\<exists>e. candleCache st (getCacheKey k TF_1D i) = Some e \<and> data e = d \<and>
      now - timestamp e \<le> CACHE_TTL)"
  using getCachedData_hit [of now st "getCacheKey k TF_1D i" d]
  by (auto simp: getCandleIntraday_start_def Let_def case_prod_beta split: option.splits if_splits)

lemma intraday_resume_requests: "requests (snd (getCandleIntraday_resume now st p res)) = requests st"
  by (simp add: getCandleIntraday_resume_def Let_def setCachedData_def split: response.split)

lemma intraday_resume_cache:
  "candleCache (snd (getCandleIntraday_resume now st p res)) =
     (case res of
        Res_ok f \<Rightarrow>
          if p_controller p \<in> aborted st then candleCache st
          else (candleCache st)(p_cacheKey p \<mapsto> \<lparr>data = cleanChartData f, timestamp = now\<rparr>)
      | _ \<Rightarrow> candleCache st)"
  by (simp add: getCandleIntraday_resume_def Let_def setCachedData_def split: response.split)

lemma history_1D_start:
  "getCandleHistory_start tzo now st k TF_1D i force = getCandleIntraday_start now st k i force 200"
  by (simp add: getCandleHistory_start_def)

lemma history_1D_call:
  "getCandleHistory_call tzo now st k TF_1D i force now' res =
   getCandleIntraday_call now st k i force 200 now' res"
  by (simp add: getCandleHistory_call_def getCandleIntraday_call_def history_1D_start)

lemma intraday_call_requests:
  "filter (\<lambda>r. endpoint r = CANDLES_HISTORY) (requests (snd (getCandleIntraday_call now st k i force n now' res))) =
   filter (\<lambda>r. endpoint r = CANDLES_HISTORY) (requests st)"
proof (cases "getCandleIntraday_start now st k i force n")
  case (Pair r st')
  have f: "filter (\<lambda>r. endpoint r = CANDLES_HISTORY) (requests st') =
           filter (\<lambda>r. endpoint r = CANDLES_HISTORY) (requests st)"
    using intraday_start_requests [of now st k i force n] Pair by simp
  show ?thesis
  proof (cases r)
    case (Returned d)
    then show ?thesis using Pair f by (simp add: getCandleIntraday_call_def)
  next
    case (Awaiting p)
    then have "p_fn p = In_getCandleIntraday"
      using intraday_start_fn [of now st k i force n p] Pair by simp
    then show ?thesis using Pair Awaiting f
      by (simp add: getCandleIntraday_call_def resume_def intraday_resume_requests)
  qed
qed

text \<open>
  C1. For every instrument key, interval and \<open>forceRefresh\<close>, \<open>getCandleHistory\<close> with the
  timeframe 1D is \<open>getCandleIntraday\<close> with that key, that interval, that flag and the
  limit 200: the same at its start (what it returns from the cache, or the call it leaves
  suspended and the request it issues) and the same as a whole call, whatever the
  response. It issues no request to the history endpoint: the history requests in the
  log after the call are those before it.
\<close>

theorem history_1D_is_intraday:
  "getCandleHistory_start tzo now st k TF_1D i force = getCandleIntraday_start now st k i force 200 \<and>
   getCandleHistory_call tzo now st k TF_1D i force now' res =
     getCandleIntraday_call now st k i force 200 now' res \<and>
   filter (\<lambda>r. endpoint r = CANDLES_HISTORY)
     (requests (snd (getCandleHistory_call tzo now st k TF_1D i force now' res))) =
   filter (\<lambda>r. endpoint r = CANDLES_HISTORY) (requests st)"
  by (simp add: history_1D_start history_1D_call intraday_call_requests)

text \<open>
  C3. The claim: a new fetch for a cache key cancels the fetch in flight for that key, and
  the fetch started last wins, also when three or more overlap. In the code the
  continuation of an aborted fetch deletes the entry of \<^verbatim>\<open>activeRequests\<close> for its key
  without looking whose controller is there, so it deletes the registration of the fetch
  that aborted it. In \<open>three_fetches\<close>, when the third fetch starts, the second is in
  flight and is not aborted: the only controller ever aborted is the first, and the
  second and the third are both suspended. The third's response is stored, then the
  second's response overwrites it: the cache ends with the candles of the second fetch.
\<close>

theorem third_fetch_does_not_cancel_second:
  "aborted (fstate (fetch_run 0 (take 4 three_fetches))) = {0} \<and>
   map p_controller (suspended (fetch_run 0 (take 4 three_fetches))) = [1, 2] \<and>
   candleCache (fstate (fetch_run 0 (take 5 three_fetches))) ''K|1D|1m'' =
     Some \<lparr>data = [flat_candle (Fin 30) (Fin 3)], timestamp = 4\<rparr> \<and>
   candleCache (fstate (fetch_run 0 three_fetches)) ''K|1D|1m'' =
     Some \<lparr>data = [flat_candle (Fin 20) (Fin 2)], timestamp = 5\<rparr>"
  by (simp add: three_fetches_def fetch_defs Let_def clean_single keep_flat)

lemma getCachedData_fresh:
  "candleCache st key = Some e \<Longrightarrow> now - timestamp e \<le> CACHE_TTL \<Longrightarrow>
   getCachedData now st key = (Some (data e), st)"
  by (simp add: getCachedData_def Let_def)

lemma getCachedData_stale:
  "candleCache st key = Some e \<Longrightarrow> CACHE_TTL < now - timestamp e \<Longrightarrow>
   getCachedData now st key = (None, st\<lparr>candleCache := (candleCache st)(key := None)\<rparr>)"
  by (simp add: getCachedData_def Let_def)

lemma getCachedData_absent:
  "candleCache st key = None \<Longrightarrow> getCachedData now st key = (None, st)"
  by (simp add: getCachedData_def)

lemma intraday_start_hit:
  "\<not> force \<Longrightarrow> candleCache st (getCacheKey k TF_1D i) = Some e \<Longrightarrow>
   now - timestamp e \<le> CACHE_TTL \<Longrightarrow>
   getCandleIntraday_start now st k i force n = (Returned (data e), st)"
  by (simp add: getCandleIntraday_start_def Let_def getCachedData_fresh)

lemma intraday_start_stale:
  "\<not> force \<Longrightarrow> candleCache st (getCacheKey k TF_1D i) = Some e \<Longrightarrow>
   CACHE_TTL < now - timestamp e \<Longrightarrow>
   (\<exists>p. fst (getCandleIntraday_start now st k i force n) = Awaiting p) \<and>
   candleCache (snd (getCandleIntraday_start now st k i force n)) =
     (candleCache st)(getCacheKey k TF_1D i := None)"
  by (simp add: getCandleIntraday_start_def Let_def getCachedData_stale case_prod_beta
      register_controller_cache)

lemma intraday_start_no_read:
  "force \<or> candleCache st (getCacheKey k TF_1D i) = None \<Longrightarrow>
   (\<exists>p. fst (getCandleIntraday_start now st k i force n) = Awaiting p) \<and>
   candleCache (snd (getCandleIntraday_start now st k i force n)) = candleCache st"
  by (auto simp: getCandleIntraday_start_def Let_def getCachedData_absent case_prod_beta
      register_controller_cache)

lemma intraday_resume_entry:
  "p_controller p \<notin> aborted st2 \<Longrightarrow>
   candleCache (snd (getCandleIntraday_resume now' st2 p (Res_ok f))) (p_cacheKey p) =
     Some \<lparr>data = cleanChartData f, timestamp = now'\<rparr>"
  by (simp add: intraday_resume_cache)

text \<open>
  C10. Every call of \<open>getCandleIntraday\<close>, for any interval and any limit, reads and
  writes the cache under the key of the timeframe 1D, \<open>instrumentKey|1D|interval\<close>. A
  call without forced refresh that finds at that key an entry not older than the time to
  live returns the candles of that entry, issues no request and leaves the state as it
  is; when the entry is older it removes it and goes on to a request; a forced call, or
  one that finds no entry at that key, goes on to a request and leaves the cache as it
  is. The start changes the cache at no other key, and what it returns without a request
  is the entry at that key. The call it leaves suspended carries that key; its
  continuation, on a successful response and when not aborted, replaces the entry at that
  key by the cleaned candles, and within the time to live a history request for 1D and
  an intraday request with any limit, both without forced refresh, then return exactly
  those candles. A history request for 1D starts as that call with the limit 200, and a
  poll of the polling fallback during market hours as that call with a forced refresh and
  the limit 500: the three share one entry.
\<close>

theorem intraday_cache_key:
  "getCacheKey k TF_1D i = k @ ''|1D|'' @ interval_str i \<and>
   (\<forall>e. \<not> force \<and> candleCache st (getCacheKey k TF_1D i) = Some e \<and>
        now - timestamp e \<le> CACHE_TTL \<longrightarrow>
      getCandleIntraday_start now st k i force n = (Returned (data e), st)) \<and>
   (\<forall>e. \<not> force \<and> candleCache st (getCacheKey k TF_1D i) = Some e \<and>
        CACHE_TTL < now - timestamp e \<longrightarrow>
      (\<exists>p. fst (getCandleIntraday_start now st k i force n) = Awaiting p) \<and>
      candleCache (snd (getCandleIntraday_start now st k i force n)) =
        (candleCache st)(getCacheKey k TF_1D i := None)) \<and>
   (force \<or> candleCache st (getCacheKey k TF_1D i) = None \<longrightarrow>
      (\<exists>p. fst (getCandleIntraday_start now st k i force n) = Awaiting p) \<and>
      candleCache (snd (getCandleIntraday_start now st k i force n)) = candleCache st) \<and>
   (\<forall>key. key \<noteq> getCacheKey k TF_1D i \<longrightarrow>
      candleCache (snd (getCandleIntraday_start now st k i force n)) key = candleCache st key) \<and>
   (\<forall>d. fst (getCandleIntraday_start now st k i force n) = Returned d \<longrightarrow>
      \<not> force \<and> (\<exists>e. candleCache st (getCacheKey k TF_1D i) = Some e \<and> data e = d)) \<and>
   (\<forall>p. fst (getCandleIntraday_start now st k i force n) = Awaiting p \<longrightarrow>
      p_cacheKey p = getCacheKey k TF_1D i \<and>
      (\<forall>st2 now' f. p_controller p \<notin> aborted st2 \<longrightarrow>
         candleCache (snd (resume now' st2 p (Res_ok f))) =
           (candleCache st2)(getCacheKey k TF_1D i \<mapsto> \<lparr>data = cleanChartData f, timestamp = now'\<rparr>) \<and>
         (\<forall>now2 m. now2 - now' \<le> CACHE_TTL \<longrightarrow>
            getCandleHistory_start tzo now2 (snd (resume now' st2 p (Res_ok f))) k TF_1D i False =
              (Returned (cleanChartData f), snd (resume now' st2 p (Res_ok f))) \<and>
            getCandleIntraday_start now2 (snd (resume now' st2 p (Res_ok f))) k i False m =
              (Returned (cleanChartData f), snd (resume now' st2 p (Res_ok f)))))) \<and>
   getCandleHistory_start tzo now st k TF_1D i force = getCandleIntraday_start now st k i force 200 \<and>
   (isWithinMarketHours tzo now \<longrightarrow>
      poll tzo now st k i = Some (getCandleIntraday_start now st k i True 500))"
proof -
  let ?K = "getCacheKey k TF_1D i"
  let ?s = "getCandleIntraday_start now st k i force n"
  have 1: "?K = k @ ''|1D|'' @ interval_str i"
    by (simp add: getCacheKey_def)
  have 2: "\<forall>e. \<not> force \<and> candleCache st ?K = Some e \<and> now - timestamp e \<le> CACHE_TTL \<longrightarrow>
      ?s = (Returned (data e), st)"
    using intraday_start_hit by blast
  have 3: "\<forall>e. \<not> force \<and> candleCache st ?K = Some e \<and> CACHE_TTL < now - timestamp e \<longrightarrow>
      (\<exists>p. fst ?s = Awaiting p) \<and> candleCache (snd ?s) = (candleCache st)(?K := None)"
    using intraday_start_stale by blast
  have 4: "force \<or> candleCache st ?K = None \<longrightarrow>
      (\<exists>p. fst ?s = Awaiting p) \<and> candleCache (snd ?s) = candleCache st"
    using intraday_start_no_read by blast
  have 5: "\<forall>key. key \<noteq> ?K \<longrightarrow> candleCache (snd ?s) key = candleCache st key"
    using intraday_start_cache by blast
  have 6: "\<forall>d. fst ?s = Returned d \<longrightarrow>
      \<not> force \<and> (\<exists>e. candleCache st ?K = Some e \<and> data e = d)"
    using intraday_start_returned [of now st k i force n] by blast
  have 7: "\<forall>p. fst ?s = Awaiting p \<longrightarrow>
      p_cacheKey p = ?K \<and>
      (\<forall>st2 now' f. p_controller p \<notin> aborted st2 \<longrightarrow>
         candleCache (snd (resume now' st2 p (Res_ok f))) =
           (candleCache st2)(?K \<mapsto> \<lparr>data = cleanChartData f, timestamp = now'\<rparr>) \<and>
         (\<forall>now2 m. now2 - now' \<le> CACHE_TTL \<longrightarrow>
            getCandleHistory_start tzo now2 (snd (resume now' st2 p (Res_ok f))) k TF_1D i False =
              (Returned (cleanChartData f), snd (resume now' st2 p (Res_ok f))) \<and>
            getCandleIntraday_start now2 (snd (resume now' st2 p (Res_ok f))) k i False m =
              (Returned (cleanChartData f), snd (resume now' st2 p (Res_ok f)))))"
  proof (intro allI impI)
    fix p assume a: "fst ?s = Awaiting p"
    have b: "p_fn p = In_getCandleIntraday \<and> p_cacheKey p = ?K"
      by (rule intraday_start_fn [OF a])
    have w: "\<forall>st2 now' f. p_controller p \<notin> aborted st2 \<longrightarrow>
         candleCache (snd (resume now' st2 p (Res_ok f))) =
           (candleCache st2)(?K \<mapsto> \<lparr>data = cleanChartData f, timestamp = now'\<rparr>) \<and>
         (\<forall>now2 m. now2 - now' \<le> CACHE_TTL \<longrightarrow>
            getCandleHistory_start tzo now2 (snd (resume now' st2 p (Res_ok f))) k TF_1D i False =
              (Returned (cleanChartData f), snd (resume now' st2 p (Res_ok f))) \<and>
            getCandleIntraday_start now2 (snd (resume now' st2 p (Res_ok f))) k i False m =
              (Returned (cleanChartData f), snd (resume now' st2 p (Res_ok f))))"
    proof (intro allI impI)
      fix st2 :: fetch_state and now' :: int and f :: "candle list"
      assume c: "p_controller p \<notin> aborted st2"
      let ?r = "snd (resume now' st2 p (Res_ok f))"
      let ?e = "\<lparr>data = cleanChartData f, timestamp = now'\<rparr>"
      have u: "candleCache ?r = (candleCache st2)(?K \<mapsto> ?e)"
        using b c by (simp add: resume_def intraday_resume_cache)
      then have h: "candleCache ?r ?K = Some ?e" by simp
      have r: "\<forall>now2 m. now2 - now' \<le> CACHE_TTL \<longrightarrow>
            getCandleHistory_start tzo now2 ?r k TF_1D i False = (Returned (cleanChartData f), ?r) \<and>
            getCandleIntraday_start now2 ?r k i False m = (Returned (cleanChartData f), ?r)"
      proof (intro allI impI)
        fix now2 :: int and m :: int
        assume t: "now2 - now' \<le> CACHE_TTL"
        have g: "\<And>m'. getCandleIntraday_start now2 ?r k i False m' = (Returned (cleanChartData f), ?r)"
          using intraday_start_hit [of False ?r k i ?e now2] h t by simp
        show "getCandleHistory_start tzo now2 ?r k TF_1D i False = (Returned (cleanChartData f), ?r) \<and>
            getCandleIntraday_start now2 ?r k i False m = (Returned (cleanChartData f), ?r)"
          using g by (simp add: history_1D_start)
      qed
      show "candleCache ?r = (candleCache st2)(?K \<mapsto> ?e) \<and>
         (\<forall>now2 m. now2 - now' \<le> CACHE_TTL \<longrightarrow>
            getCandleHistory_start tzo now2 ?r k TF_1D i False = (Returned (cleanChartData f), ?r) \<and>
            getCandleIntraday_start now2 ?r k i False m = (Returned (cleanChartData f), ?r))"
        using u r by blast
    qed
    show "p_cacheKey p = ?K \<and>
      (\<forall>st2 now' f. p_controller p \<notin> aborted st2 \<longrightarrow>
         candleCache (snd (resume now' st2 p (Res_ok f))) =
           (candleCache st2)(?K \<mapsto> \<lparr>data = cleanChartData f, timestamp = now'\<rparr>) \<and>
         (\<forall>now2 m. now2 - now' \<le> CACHE_TTL \<longrightarrow>
            getCandleHistory_start tzo now2 (snd (resume now' st2 p (Res_ok f))) k TF_1D i False =
              (Returned (cleanChartData f), snd (resume now' st2 p (Res_ok f))) \<and>
            getCandleIntraday_start now2 (snd (resume now' st2 p (Res_ok f))) k i False m =
              (Returned (cleanChartData f), snd (resume now' st2 p (Res_ok f)))))"
      using b w by blast
  qed
  have 8: "getCandleHistory_start tzo now st k TF_1D i force = getCandleIntraday_start now st k i force 200"
    by (rule history_1D_start)
  have 9: "isWithinMarketHours tzo now \<longrightarrow>
      poll tzo now st k i = Some (getCandleIntraday_start now st k i True 500)"
    by (simp add: poll_def)
  show ?thesis
    by (intro conjI) (rule 1, rule 2, rule 3, rule 4, rule 5, rule 6, rule 7, rule 8, rule 9)
qed

theorem intraday_cache_key_witness:
  "fst (getCandleIntraday_start 534600000 fetch_init ''K'' I_1m True 500) =
     Awaiting \<lparr>p_fn = In_getCandleIntraday, p_cacheKey = ''K|1D|1m'', p_controller = 0\<rparr> \<and>
   0 \<notin> aborted (snd (getCandleIntraday_start 534600000 fetch_init ''K'' I_1m True 500)) \<and>
   candleCache
     (snd (resume 534600007 (snd (getCandleIntraday_start 534600000 fetch_init ''K'' I_1m True 500))
        \<lparr>p_fn = In_getCandleIntraday, p_cacheKey = ''K|1D|1m'', p_controller = 0\<rparr>
        (Res_ok [flat_candle (Fin 20) (Fin 2)]))) ''K|1D|1m'' =
     Some \<lparr>data = [flat_candle (Fin 20) (Fin 2)], timestamp = 534600007\<rparr> \<and>
   534600010 - 534600007 \<le> CACHE_TTL \<and>
   fst (getCandleHistory_start 0 534600010
     (snd (resume 534600007 (snd (getCandleIntraday_start 534600000 fetch_init ''K'' I_1m True 500))
        \<lparr>p_fn = In_getCandleIntraday, p_cacheKey = ''K|1D|1m'', p_controller = 0\<rparr>
        (Res_ok [flat_candle (Fin 20) (Fin 2)])))
     ''K'' TF_1D I_1m False) = Returned [flat_candle (Fin 20) (Fin 2)] \<and>
   fst (getCandleIntraday_start 534600010
     (snd (resume 534600007 (snd (getCandleIntraday_start 534600000 fetch_init ''K'' I_1m True 500))
        \<lparr>p_fn = In_getCandleIntraday, p_cacheKey = ''K|1D|1m'', p_controller = 0\<rparr>
        (Res_ok [flat_candle (Fin 20) (Fin 2)])))
     ''K'' I_1m False 200) = Returned [flat_candle (Fin 20) (Fin 2)] \<and>
   CACHE_TTL < 535000007 - 534600007 \<and>
   candleCache (snd (getCandleIntraday_start 535000007
     (snd (resume 534600007 (snd (getCandleIntraday_start 534600000 fetch_init ''K'' I_1m True 500))
        \<lparr>p_fn = In_getCandleIntraday, p_cacheKey = ''K|1D|1m'', p_controller = 0\<rparr>
        (Res_ok [flat_candle (Fin 20) (Fin 2)])))
     ''K'' I_1m False 500)) ''K|1D|1m'' = None \<and>
   candleCache (snd (getCandleIntraday_start 534600000 fetch_init ''K'' I_1m True 500)) ''K|1W|1m'' =
     None \<and>
   isWithinMarketHours 0 534600000 \<and>
   poll 0 534600000 fetch_init ''K'' I_1m =
     Some (getCandleIntraday_start 534600000 fetch_init ''K'' I_1m True 500)"
proof -
  let ?s = "getCandleIntraday_start 534600000 fetch_init ''K'' I_1m True 500"
  let ?p = "\<lparr>p_fn = In_getCandleIntraday, p_cacheKey = ''K|1D|1m'', p_controller = 0\<rparr>"
  let ?c = "[flat_candle (Fin 20) (Fin 2)]"
  let ?r = "snd (resume 534600007 (snd ?s) ?p (Res_ok ?c))"
  let ?e = "\<lparr>data = ?c, timestamp = 534600007\<rparr>"
  have a: "fst ?s = Awaiting ?p"
    by (simp add: getCandleIntraday_start_def Let_def register_controller_def fetch_init_def
        getCacheKey_def)
  have b: "p_controller ?p \<notin> aborted (snd ?s)"
    by (simp add: getCandleIntraday_start_def Let_def register_controller_def fetch_init_def
        getCacheKey_def)
  have h: "isWithinMarketHours 0 534600000"
    by (simp add: isWithinMarketHours_def getDay_def getHours_def getMinutes_def localMs_def)
  have k: "getCacheKey ''K'' TF_1D I_1m = ''K|1D|1m''" by (simp add: getCacheKey_def)
  have c: "cleanChartData ?c = ?c" by (simp add: clean_single keep_flat)
  have e: "candleCache fetch_init ''K|1W|1m'' = None" by (simp add: fetch_init_def)
  have t1: "534600010 - 534600007 \<le> CACHE_TTL" by (simp add: CACHE_TTL_def)
  have t2: "CACHE_TTL < 535000007 - 534600007" by (simp add: CACHE_TTL_def)
  note t = intraday_cache_key [of "''K''" I_1m True fetch_init 534600000 500 0]
  note t5 = t [THEN conjunct2, THEN conjunct2, THEN conjunct2, THEN conjunct2, THEN conjunct1]
  note t7 = t [THEN conjunct2, THEN conjunct2, THEN conjunct2, THEN conjunct2, THEN conjunct2,
      THEN conjunct2, THEN conjunct1]
  note t9 = t [THEN conjunct2, THEN conjunct2, THEN conjunct2, THEN conjunct2, THEN conjunct2,
      THEN conjunct2, THEN conjunct2, THEN conjunct2]
  note w7 = t7 [rule_format, OF a, THEN conjunct2, rule_format, OF b, of 534600007 ?c]
  have w0: "candleCache ?r = (candleCache (snd ?s))(getCacheKey ''K'' TF_1D I_1m \<mapsto>
         \<lparr>data = cleanChartData ?c, timestamp = 534600007\<rparr>)"
    by (rule w7 [THEN conjunct1])
  have w: "candleCache ?r ''K|1D|1m'' = Some ?e"
    unfolding w0 k c by simp
  have r1: "getCandleHistory_start 0 534600010 ?r ''K'' TF_1D I_1m False = (Returned (cleanChartData ?c), ?r)"
    by (rule w7 [THEN conjunct2, rule_format, OF t1, THEN conjunct1])
  have r2: "getCandleIntraday_start 534600010 ?r ''K'' I_1m False 200 = (Returned (cleanChartData ?c), ?r)"
    by (rule w7 [THEN conjunct2, rule_format, OF t1, THEN conjunct2])
  have r1': "fst (getCandleHistory_start 0 534600010 ?r ''K'' TF_1D I_1m False) = Returned ?c"
    unfolding r1 c by simp
  have r2': "fst (getCandleIntraday_start 534600010 ?r ''K'' I_1m False 200) = Returned ?c"
    unfolding r2 c by simp
  note u = intraday_cache_key [of "''K''" I_1m False ?r 535000007 500 0]
  note u3 = u [THEN conjunct2, THEN conjunct2, THEN conjunct1]
  have w': "candleCache ?r (getCacheKey ''K'' TF_1D I_1m) = Some ?e" unfolding k by (rule w)
  have ts: "CACHE_TTL < 535000007 - timestamp ?e" using t2 by simp
  have st0: "candleCache (snd (getCandleIntraday_start 535000007 ?r ''K'' I_1m False 500)) =
      (candleCache ?r)(getCacheKey ''K'' TF_1D I_1m := None)"
    using u3 [rule_format, of ?e] w' ts by blast
  have st: "candleCache (snd (getCandleIntraday_start 535000007 ?r ''K'' I_1m False 500)) ''K|1D|1m'' = None"
    unfolding st0 k by simp
  have n: "''K|1W|1m'' \<noteq> getCacheKey ''K'' TF_1D I_1m" unfolding k by simp
  have o: "candleCache (snd ?s) ''K|1W|1m'' = None"
    using t5 [rule_format, OF n] e by simp
  have q: "poll 0 534600000 fetch_init ''K'' I_1m = Some ?s"
    by (rule t9 [rule_format, OF h])
  have b': "0 \<notin> aborted (snd ?s)" using b by simp
  show ?thesis using a b' w t1 r1' r2' t2 st o h q by (intro conjI)
qed

section \<open>Properties of the websocket\<close>

lemmas ws_defs = ws_run_def ws_init_def connectMarketWebSocket_def subscribeToInstruments_def onopen_def
  onclose_def disconnectMarketWebSocket_def clearTimeout_def close_socket_def reconnectDelay_def
  MAX_RECONNECT_ATTEMPTS_def

lemma market_open_wednesday: "isMarketOpen 0 534600000"
  by (simp add: isMarketOpen_def getDay_def getHours_def getMinutes_def localMs_def)

lemma market_closed_sunday: "\<not> isMarketOpen 0 259200000"
  by (simp add: isMarketOpen_def getDay_def getHours_def getMinutes_def localMs_def)

lemma delay_strict: "reconnectDelay n < 30000 \<Longrightarrow> reconnectDelay n < reconnectDelay (Suc n)"
  by (auto simp: reconnectDelay_def min_def)

lemma delay_below_cap: "n < 5 \<Longrightarrow> reconnectDelay n = 1000 * 2 ^ n"
proof -
  assume "n < 5"
  then have "n \<le> 4" by simp
  then have "(2::nat) ^ n \<le> 2 ^ 4" by (rule power_increasing) simp
  then show ?thesis by (simp add: reconnectDelay_def min_def)
qed

lemma delay_strict5: "n < m \<Longrightarrow> m < 5 \<Longrightarrow> reconnectDelay n < reconnectDelay m"
  by (simp add: delay_below_cap)

text \<open>
  C4. When a socket closes, the handler schedules a reconnect exactly when the market is
  open at that instant and fewer than 5 attempts are counted; the delay of the timer is
  \<open>min (1000 * 2 ^ n) 30000\<close> milliseconds, \<open>n\<close> being the attempts counted so far, and the
  count goes up by one. When the market is closed no timer is added. The delays are
  strictly increasing over the attempts that can happen, and in general as long as the
  cap of 30000 is not reached, which they never exceed.
\<close>

theorem onclose_reconnect_schedule:
  "timers (onclose tzo now st i) =
     (if isMarketOpen tzo now \<and> wsReconnectAttempts st < 5
      then timers st @
        [\<lparr>timeout_ms = min (1000 * 2 ^ wsReconnectAttempts st) 30000,
          reconnectKeys = handlerKeys (sockets st ! i), pending = True\<rparr>]
      else timers st) \<and>
   wsReconnectAttempts (onclose tzo now st i) =
     (if isMarketOpen tzo now \<and> wsReconnectAttempts st < 5
      then wsReconnectAttempts st + 1 else wsReconnectAttempts st) \<and>
   (\<not> isMarketOpen tzo now \<longrightarrow> timers (onclose tzo now st i) = timers st) \<and>
   (n < m \<and> m < 5 \<longrightarrow> reconnectDelay n < reconnectDelay m) \<and>
   (reconnectDelay n < 30000 \<longrightarrow> reconnectDelay n < reconnectDelay (Suc n)) \<and>
   reconnectDelay n \<le> 30000"
proof -
  have a: "timers (onclose tzo now st i) =
     (if isMarketOpen tzo now \<and> wsReconnectAttempts st < 5
      then timers st @
        [\<lparr>timeout_ms = min (1000 * 2 ^ wsReconnectAttempts st) 30000,
          reconnectKeys = handlerKeys (sockets st ! i), pending = True\<rparr>]
      else timers st)"
    by (simp add: onclose_def Let_def MAX_RECONNECT_ATTEMPTS_def reconnectDelay_def)
  have b: "wsReconnectAttempts (onclose tzo now st i) =
     (if isMarketOpen tzo now \<and> wsReconnectAttempts st < 5
      then wsReconnectAttempts st + 1 else wsReconnectAttempts st)"
    by (simp add: onclose_def Let_def MAX_RECONNECT_ATTEMPTS_def)
  have c: "\<not> isMarketOpen tzo now \<longrightarrow> timers (onclose tzo now st i) = timers st"
    by (simp add: onclose_def Let_def)
  have d: "reconnectDelay n \<le> 30000" by (simp add: reconnectDelay_def)
  show ?thesis using a b c d delay_strict [of n] delay_strict5 [of n m] by blast
qed

theorem onclose_reconnect_schedule_witness:
  "isMarketOpen 0 534600000 \<and>
   timers (onclose 0 534600000 two_failed_attempts 0) =
     [\<lparr>timeout_ms = 4000, reconnectKeys = [''K''], pending = True\<rparr>] \<and>
   wsReconnectAttempts (onclose 0 534600000 two_failed_attempts 0) = 3 \<and>
   \<not> isMarketOpen 0 259200000 \<and>
   timers (onclose 0 259200000 two_failed_attempts 0) = [] \<and>
   reconnectDelay 1 < reconnectDelay 3 \<and>
   reconnectDelay 1 < 30000 \<and>
   reconnectDelay 1 < reconnectDelay (Suc 1)"
proof -
  have d: "reconnectDelay 1 < 30000" by (simp add: reconnectDelay_def)
  have s: "timers two_failed_attempts = []" "wsReconnectAttempts two_failed_attempts = 2"
    "handlerKeys (sockets two_failed_attempts ! 0) = [''K'']"
    by (simp_all add: two_failed_attempts_def)
  show ?thesis
    using onclose_reconnect_schedule [of 0 534600000 two_failed_attempts 0 1 3]
      onclose_reconnect_schedule [of 0 259200000 two_failed_attempts 0 1 3]
      market_open_wednesday market_closed_sunday d s
    by simp
qed

text \<open>
  C5. The claim: after a deliberate \<open>disconnectMarketWebSocket\<close> the close of the
  connection that follows schedules no reconnect, whether the market is open or not. The
  disconnect clears the timer and the counter, but the handler \<open>onclose\<close> stays on the
  socket and cannot tell this close from another. On a Wednesday at 10:00 in India:
  connect, the socket opens, disconnect, the socket's close event arrives. The handler
  schedules a reconnect in 1000 ms; when that timer fires, a second socket is created and
  becomes the connection.
\<close>

theorem disconnect_then_close_schedules_reconnect:
  "timers (ws_run 0 ws_init
      [CallConnect (Some ''t'') [''K''], SocketOpens 0, CallDisconnect, SocketCloses 0 534600000]) =
     [\<lparr>timeout_ms = 1000, reconnectKeys = [''K''], pending = True\<rparr>] \<and>
   wsConnection (ws_run 0 ws_init
      [CallConnect (Some ''t'') [''K''], SocketOpens 0, CallDisconnect, SocketCloses 0 534600000,
       TimerFires 0 (Some ''t'')]) = Some 1"
  by (simp add: ws_defs market_open_wednesday)




end
